theory Spec2Isabelle
  imports Main "HOL-Library.Word" "HOL-Library.AList"
begin

section \<open>JavaScript strings and errors\<close>

text \<open>
  A JavaScript string is a sequence of UTF-16 code units. The literals of \<^verbatim>\<open>server.js\<close>
  that are not ASCII are written by their code units; ASCII literals go through
  \<open>ascii\<close>.
\<close>

type_synonym jschar = "16 word"
type_synonym jsstring = "jschar list"
type_synonym bytes = "8 word list"

definition ascii :: "string \<Rightarrow> jsstring" where
  "ascii s = map of_char s"

text \<open>\<^verbatim>\<open>new Error(message)\<close>: the only field the server reads is \<^verbatim>\<open>message\<close>.\<close>

datatype error = Error (message: jsstring)

section \<open>The audio directory\<close>

text \<open>
  \<^verbatim>\<open>AUDIO_DIR\<close> is a flat directory: a list of (file name, contents) in the order
  \<^verbatim>\<open>fs.readdir\<close> lists it. The \<^verbatim>\<open>fs/promises\<close> calls of the server fail only
  when the file they name is absent (\<^verbatim>\<open>ENOENT\<close>); faults of the disk itself are outside
  the model.
\<close>

type_synonym dir = "(jsstring \<times> bytes) list"

text \<open>
  The error of a missing file. Node names the absolute path in single quotes in its
  message; here a file is named by its name in \<^verbatim>\<open>AUDIO_DIR\<close>, and so is it in the message.
\<close>

definition enoent :: "string \<Rightarrow> jsstring \<Rightarrow> error" where
  "enoent syscall path =
     Error (ascii ''ENOENT: no such file or directory, '' @ ascii syscall @ ascii '' '' @ path)"

definition fs_access :: "dir \<Rightarrow> jsstring \<Rightarrow> error + unit" where
  "fs_access d p = (case map_of d p of None \<Rightarrow> Inl (enoent ''access'' p) | Some _ \<Rightarrow> Inr ())"

definition fs_readFile :: "dir \<Rightarrow> jsstring \<Rightarrow> error + bytes" where
  "fs_readFile d p = (case map_of d p of None \<Rightarrow> Inl (enoent ''open'' p) | Some b \<Rightarrow> Inr b)"

definition fs_writeFile :: "dir \<Rightarrow> jsstring \<Rightarrow> bytes \<Rightarrow> dir" where
  "fs_writeFile d p b = AList.update p b d"

definition fs_unlink :: "dir \<Rightarrow> jsstring \<Rightarrow> error + dir" where
  "fs_unlink d p = (case map_of d p of None \<Rightarrow> Inl (enoent ''unlink'' p)
                    | Some _ \<Rightarrow> Inr (AList.delete p d))"

definition fs_rename :: "dir \<Rightarrow> jsstring \<Rightarrow> jsstring \<Rightarrow> error + dir" where
  "fs_rename d p q =
     (case map_of d p of
        None \<Rightarrow> Inl (enoent ''rename'' p)
      | Some b \<Rightarrow> if p = q then Inr d else Inr (AList.update q b (AList.delete p d)))"

definition fs_readdir :: "dir \<Rightarrow> jsstring list" where
  "fs_readdir d = map fst d"

section \<open>Audio capture and merge\<close>

definition TEMP_MISSING :: jsstring where
  "TEMP_MISSING = [0x4E34, 0x65F6, 0x97F3, 0x9891, 0x6587, 0x4EF6, 0x4E0D, 0x5B58, 0x5728]"

definition MERGE_FAILED :: jsstring where
  "MERGE_FAILED = [0x5408, 0x5E76, 0x97F3, 0x9891, 0x6587, 0x4EF6, 0x5931, 0x8D25, 0x3A, 0x20]"

text \<open>
  The inner \<^verbatim>\<open>try\<close> block of \<^verbatim>\<open>mergeAudioFiles\<close>: access the final file, read both,
  write the concatenation, unlink the temp file. A failure carries the directory as it
  was when the step failed, which is what the \<^verbatim>\<open>catch\<close> block then sees.
\<close>

definition merge_try :: "dir \<Rightarrow> jsstring \<Rightarrow> jsstring \<Rightarrow> (error \<times> dir) + dir" where
  "merge_try d tempAudioPath finalAudioPath =
     (case fs_access d finalAudioPath of
        Inl e \<Rightarrow> Inl (e, d)
      | Inr _ \<Rightarrow>
         (case fs_readFile d tempAudioPath of
            Inl e \<Rightarrow> Inl (e, d)
          | Inr tempAudioData \<Rightarrow>
             (case fs_readFile d finalAudioPath of
                Inl e \<Rightarrow> Inl (e, d)
              | Inr finalAudioData \<Rightarrow>
                 (let mergedData = finalAudioData @ tempAudioData;
                      d1 = fs_writeFile d finalAudioPath mergedData
                  in case fs_unlink d1 tempAudioPath of
                       Inl e \<Rightarrow> Inl (e, d1)
                     | Inr d2 \<Rightarrow> Inr d2))))"

definition mergeAudioFiles :: "jsstring \<Rightarrow> dir \<Rightarrow> (error + jsstring) \<times> dir" where
  "mergeAudioFiles taskId d =
     (let tempAudioPath = taskId @ ascii ''_temp.webm'';
          finalAudioPath = taskId @ ascii ''.webm''
      in case fs_access d tempAudioPath of
           Inl _ \<Rightarrow> (Inl (Error (MERGE_FAILED @ TEMP_MISSING)), d)
         | Inr _ \<Rightarrow>
            (case merge_try d tempAudioPath finalAudioPath of
               Inr d' \<Rightarrow> (Inr (taskId @ ascii ''.webm''), d')
             | Inl (_, d1) \<Rightarrow>
                (case fs_rename d1 tempAudioPath finalAudioPath of
                   Inl e \<Rightarrow> (Inl (Error (MERGE_FAILED @ message e)), d1)
                 | Inr d2 \<Rightarrow> (Inr (taskId @ ascii ''.webm''), d2))))"

section \<open>JSON values as the server reads them\<close>

text \<open>
  The bodies that \<^verbatim>\<open>axios\<close> hands to the server are parsed JSON. \<open>JUndefined\<close> is what
  reading a missing property gives. Numbers are left out: the server never computes with
  one, and a number in a position it reads as text is outside the model.
\<close>

datatype json =
    JUndefined
  | JNull
  | JBool bool
  | JStr jsstring
  | JArr "json list"
  | JObj "(jsstring \<times> json) list"

fun truthy :: "json \<Rightarrow> bool" where
  "truthy JUndefined = False"
| "truthy JNull = False"
| "truthy (JBool b) = b"
| "truthy (JStr s) = (s \<noteq> [])"
| "truthy (JArr _) = True"
| "truthy (JObj _) = True"

fun isArray :: "json \<Rightarrow> bool" where
  "isArray (JArr _) = True"
| "isArray _ = False"

fun elems :: "json \<Rightarrow> json list" where
  "elems (JArr xs) = xs"
| "elems _ = []"

definition quote :: jsstring where
  "quote = [0x27]"

text \<open>
  \<^verbatim>\<open>x.f\<close>: a \<^verbatim>\<open>TypeError\<close> on \<^verbatim>\<open>null\<close> and \<^verbatim>\<open>undefined\<close>, the member of an object,
  \<^verbatim>\<open>undefined\<close> on every other value (none of the names the server reads is a
  built-in property of a string, a boolean or an array).
\<close>

fun get :: "json \<Rightarrow> string \<Rightarrow> error + json" where
  "get JUndefined f =
     Inl (Error (ascii ''Cannot read properties of undefined (reading '' @ quote @ ascii f
                 @ quote @ ascii '')''))"
| "get JNull f =
     Inl (Error (ascii ''Cannot read properties of null (reading '' @ quote @ ascii f
                 @ quote @ ascii '')''))"
| "get (JObj kvs) f = (case map_of kvs (ascii f) of None \<Rightarrow> Inr JUndefined | Some v \<Rightarrow> Inr v)"
| "get _ f = Inr JUndefined"

fun join :: "jsstring \<Rightarrow> jsstring list \<Rightarrow> jsstring" where
  "join sep [] = []"
| "join sep [x] = x"
| "join sep (x # y # ys) = x @ sep @ join sep (y # ys)"

text \<open>\<^verbatim>\<open>String(x)\<close>, as string concatenation and \<^verbatim>\<open>Array.prototype.join\<close> apply it.\<close>

fun to_string :: "json \<Rightarrow> jsstring" where
  "to_string JUndefined = ascii ''undefined''"
| "to_string JNull = ascii ''null''"
| "to_string (JBool b) = (if b then ascii ''true'' else ascii ''false'')"
| "to_string (JStr s) = s"
| "to_string (JArr xs) =
     join (ascii '','')
       (map (\<lambda>x. if x = JUndefined \<or> x = JNull then [] else to_string x) xs)"
| "to_string (JObj _) = ascii ''[object Object]''"

text \<open>
  White space of \<^verbatim>\<open>String.prototype.trim\<close> and of \<^verbatim>\<open>\s\<close> in a regular expression:
  the WhiteSpace and LineTerminator code points of ECMAScript.
\<close>

definition is_space :: "jschar \<Rightarrow> bool" where
  "is_space c =
     (c = 0x09 \<or> c = 0x0A \<or> c = 0x0B \<or> c = 0x0C \<or> c = 0x0D \<or> c = 0x20 \<or> c = 0xA0
      \<or> c = 0x1680 \<or> (0x2000 \<le> c \<and> c \<le> 0x200A) \<or> c = 0x2028 \<or> c = 0x2029
      \<or> c = 0x202F \<or> c = 0x205F \<or> c = 0x3000 \<or> c = 0xFEFF)"

definition trim :: "jsstring \<Rightarrow> jsstring" where
  "trim s = rev (dropWhile is_space (rev (dropWhile is_space s)))"

section \<open>Remote transcription job client\<close>

record llm_config =
  baseUrl :: jsstring
  model :: jsstring
  apiKey :: jsstring

text \<open>
  The document at \<^verbatim>\<open>data.output\<close> of a status query. \<open>results\<close> is \<open>None\<close> when
  the field is absent (or falsy); when present it is an array.
\<close>

record query_output =
  task_status :: json
  output_message :: json
  results :: "json list option"

text \<open>
  What the remote services answer, as parameters of the client: the stored LLM
  configuration (\<^verbatim>\<open>getLLMConfig\<close>, \<open>None\<close> for \<^verbatim>\<open>null\<close>), the value at
  \<^verbatim>\<open>data.output.task_id\<close> of the submit response, the answer to the n-th status query,
  and the body behind a \<^verbatim>\<open>transcription_url\<close>. \<open>Inl\<close> is a rejected request.
\<close>

record transcription_service =
  stored_llm_config :: "llm_config option"
  submit :: "error + json"
  poll :: "nat \<Rightarrow> error + query_output"
  fetch :: "json \<Rightarrow> error + json"

datatype event = Query nat | Sleep nat

definition maxAttempts :: nat where
  "maxAttempts = 30"

definition TRANSCRIBE_FAILED :: jsstring where
  "TRANSCRIBE_FAILED = [0x8F6C, 0x5199, 0x4EFB, 0x52A1, 0x5931, 0x8D25, 0x3A, 0x20]"

definition TRANSCRIBE_TIMEOUT :: jsstring where
  "TRANSCRIBE_TIMEOUT = [0x8F6C, 0x5199, 0x4EFB, 0x52A1, 0x8D85, 0x65F6]"

text \<open>
  The poll loop of \<^verbatim>\<open>audioToTextWithParaformer\<close>, from \<open>attempts\<close> on, with the queries
  and the five-second waits it performs in order. After the loop, \<^verbatim>\<open>result\<close> is unset
  exactly when the attempts ran out, and the timeout error is thrown.
\<close>

function poll_loop ::
  "(nat \<Rightarrow> error + query_output) \<Rightarrow> nat \<Rightarrow> (error + query_output) \<times> event list" where
  "poll_loop q attempts =
     (if attempts < maxAttempts then
        (case q (attempts + 1) of
           Inl e \<Rightarrow> (Inl e, [Query (attempts + 1)])
         | Inr out \<Rightarrow>
            if task_status out = JStr (ascii ''SUCCEEDED'') then
              (Inr out, [Query (attempts + 1)])
            else if task_status out = JStr (ascii ''FAILED'') then
              (Inl (Error (TRANSCRIBE_FAILED @ to_string (output_message out))),
               [Query (attempts + 1)])
            else
              (let (r, tr) = poll_loop q (attempts + 1)
               in (r, Query (attempts + 1) # Sleep 5000 # tr)))
      else (Inl (Error TRANSCRIBE_TIMEOUT), []))"
  by pat_completeness auto
termination
  by (relation "measure (\<lambda>(q, attempts). maxAttempts - attempts)") auto

declare poll_loop.simps [simp del]

definition NO_TEXT :: jsstring where
  "NO_TEXT = [0x672A, 0x8BC6, 0x522B, 0x5230, 0x6587, 0x672C, 0x5185, 0x5BB9]"

definition AUDIO_TO_TEXT_FAILED :: jsstring where
  "AUDIO_TO_TEXT_FAILED = [0x97F3, 0x9891, 0x8F6C, 0x6587, 0x672C, 0x5931, 0x8D25, 0x3A, 0x20]"

definition SUBMIT_FAILED :: jsstring where
  "SUBMIT_FAILED = [0x63D0, 0x4EA4, 0x8F6C, 0x5199, 0x4EFB, 0x52A1, 0x5931, 0x8D25]"

definition NEED_LLM_CONFIG_KEY :: jsstring where
  "NEED_LLM_CONFIG_KEY =
     [0x8BF7, 0x5148, 0x914D, 0x7F6E, 0x4C, 0x4C, 0x4D, 0x53C2, 0x6570, 0xFF0C, 0x9700, 0x8981,
      0x5305, 0x542B, 0x963F, 0x91CC, 0x4E91, 0x41, 0x50, 0x49, 0x20, 0x4B, 0x65, 0x79]"

definition NEED_API_KEY :: jsstring where
  "NEED_API_KEY =
     [0x8BF7, 0x5728, 0x4C, 0x4C, 0x4D, 0x914D, 0x7F6E, 0x4E2D, 0x8BBE, 0x7F6E, 0x963F, 0x91CC,
      0x4E91, 0x41, 0x50, 0x49, 0x20, 0x4B, 0x65, 0x79]"

definition FETCH_RESULT_FAILED :: jsstring where
  "FETCH_RESULT_FAILED =
     [0x83B7, 0x53D6, 0x8F6C, 0x5F55, 0x7ED3, 0x679C, 0x5931, 0x8D25, 0x3A, 0x20]"

text \<open>\<^verbatim>\<open>t => t.text || ''\<close> and \<^verbatim>\<open>s => s.text || s.sentence || ''\<close>.\<close>

definition text_or_empty :: "json \<Rightarrow> error + json" where
  "text_or_empty t =
     (case get t ''text'' of
        Inl e \<Rightarrow> Inl e
      | Inr v \<Rightarrow> Inr (if truthy v then v else JStr []))"

definition text_or_sentence_or_empty :: "json \<Rightarrow> error + json" where
  "text_or_sentence_or_empty s =
     (case get s ''text'' of
        Inl e \<Rightarrow> Inl e
      | Inr v \<Rightarrow>
         if truthy v then Inr v
         else (case get s ''sentence'' of
                 Inl e \<Rightarrow> Inl e
               | Inr v' \<Rightarrow> Inr (if truthy v' then v' else JStr [])))"

text \<open>\<^verbatim>\<open>xs.map(f)\<close> where \<open>f\<close> may throw: the first element that throws ends the map.\<close>

fun map_throwing :: "(json \<Rightarrow> error + json) \<Rightarrow> json list \<Rightarrow> error + json list" where
  "map_throwing f [] = Inr []"
| "map_throwing f (x # xs) =
     (case f x of
        Inl e \<Rightarrow> Inl e
      | Inr v \<Rightarrow> (case map_throwing f xs of Inl e \<Rightarrow> Inl e | Inr vs \<Rightarrow> Inr (v # vs)))"

text \<open>\<^verbatim>\<open>xs.map(f).join(sep)\<close>; every mapped value is truthy or \<^verbatim>\<open>''\<close>.\<close>

definition map_join :: "(json \<Rightarrow> error + json) \<Rightarrow> jsstring \<Rightarrow> json list \<Rightarrow> error + jsstring" where
  "map_join f sep xs =
     (case map_throwing f xs of
        Inl e \<Rightarrow> Inl e
      | Inr vs \<Rightarrow> Inr (join sep (map to_string vs)))"

text \<open>
  The text that the body behind a \<^verbatim>\<open>transcription_url\<close> adds to
  \<^verbatim>\<open>transcriptionText\<close>: the \<^verbatim>\<open>transcripts\<close> encoding first, then \<^verbatim>\<open>payload.result\<close>
  as an array, an object or a string.
\<close>

definition from_payload_result :: "json \<Rightarrow> error + jsstring" where
  "from_payload_result r =
     (if isArray r then map_join text_or_empty [0x0A] (elems r)
      else (case r of
              JObj _ \<Rightarrow>
                (case get r ''text'' of
                   Inl e \<Rightarrow> Inl e
                 | Inr t \<Rightarrow>
                    if truthy t then Inr (to_string t)
                    else (case get r ''sentences'' of
                            Inl e \<Rightarrow> Inl e
                          | Inr ss \<Rightarrow>
                             if truthy ss \<and> isArray ss
                             then map_join text_or_empty [0x0A] (elems ss)
                             else Inr []))
            | JStr str \<Rightarrow> Inr str
            | _ \<Rightarrow> Inr []))"

definition from_transcription :: "json \<Rightarrow> error + jsstring" where
  "from_transcription data =
     (if \<not> truthy data then Inr []
      else (case get data ''transcripts'' of
              Inl e \<Rightarrow> Inl e
            | Inr transcripts \<Rightarrow>
               if truthy transcripts then
                 (if isArray transcripts
                  then map_join text_or_empty [0x0A] (elems transcripts)
                  else Inr [])
               else (case get data ''payload'' of
                       Inl e \<Rightarrow> Inl e
                     | Inr payload \<Rightarrow>
                        if truthy payload then
                          (case get payload ''result'' of
                             Inl e \<Rightarrow> Inl e
                           | Inr r \<Rightarrow> if truthy r then from_payload_result r else Inr [])
                        else Inr [])))"

text \<open>
  One pass of the loop over \<^verbatim>\<open>result.output.results\<close>. The read of
  \<^verbatim>\<open>item.transcription_url\<close> is outside the inner \<^verbatim>\<open>try\<close>, so its \<^verbatim>\<open>TypeError\<close>
  leaves the function; a failure of the fetch or of the decoding is caught and its
  message is appended to the text.
\<close>

definition extract_item :: "(json \<Rightarrow> error + json) \<Rightarrow> jsstring \<Rightarrow> json \<Rightarrow> error + jsstring" where
  "extract_item fetch_url transcriptionText item =
     (case get item ''transcription_url'' of
        Inl e \<Rightarrow> Inl e
      | Inr u \<Rightarrow>
         if truthy u then
           (case (case fetch_url u of Inl e \<Rightarrow> Inl e | Inr data \<Rightarrow> from_transcription data) of
              Inl fetchError \<Rightarrow> Inr (transcriptionText @ FETCH_RESULT_FAILED @ message fetchError)
            | Inr s \<Rightarrow> Inr (transcriptionText @ s))
         else (case get item ''text'' of
                 Inl e \<Rightarrow> Inl e
               | Inr t \<Rightarrow>
                  if truthy t then Inr (transcriptionText @ to_string t @ [0x0A])
                  else (case get item ''sentence'' of
                          Inl e \<Rightarrow> Inl e
                        | Inr sn \<Rightarrow>
                           if truthy sn then Inr (transcriptionText @ to_string sn @ [0x0A])
                           else Inr transcriptionText)))"

fun extract_loop :: "(json \<Rightarrow> error + json) \<Rightarrow> jsstring \<Rightarrow> json list \<Rightarrow> error + jsstring" where
  "extract_loop fetch_url transcriptionText [] = Inr transcriptionText"
| "extract_loop fetch_url transcriptionText (item # items) =
     (case extract_item fetch_url transcriptionText item of
        Inl e \<Rightarrow> Inl e
      | Inr text' \<Rightarrow> extract_loop fetch_url text' items)"

text \<open>
  The fallback after the loop: when the text is still empty and there is a first entry,
  its \<^verbatim>\<open>sentence\<close>, else its \<^verbatim>\<open>sentences\<close>, else its \<^verbatim>\<open>text\<close> is assigned as it is
  (not converted to a string).
\<close>

definition fallback :: "json list \<Rightarrow> jsstring \<Rightarrow> error + json" where
  "fallback rs transcriptionText =
     (case rs of
        [] \<Rightarrow> Inr (JStr transcriptionText)
      | firstResult # _ \<Rightarrow>
         if transcriptionText \<noteq> [] then Inr (JStr transcriptionText)
         else (case get firstResult ''sentence'' of
                 Inl e \<Rightarrow> Inl e
               | Inr sn \<Rightarrow>
                  if truthy sn then Inr sn
                  else (case get firstResult ''sentences'' of
                          Inl e \<Rightarrow> Inl e
                        | Inr ss \<Rightarrow>
                           if truthy ss then
                             (if isArray ss then
                                (case map_join text_or_sentence_or_empty [0x20] (elems ss) of
                                   Inl e \<Rightarrow> Inl e
                                 | Inr s \<Rightarrow> Inr (JStr s))
                              else (case ss of
                                      JStr str \<Rightarrow> Inr (JStr str)
                                    | _ \<Rightarrow> Inr (JStr transcriptionText)))
                           else (case get firstResult ''text'' of
                                   Inl e \<Rightarrow> Inl e
                                 | Inr t \<Rightarrow>
                                    if truthy t then Inr t
                                    else Inr (JStr transcriptionText)))))"

text \<open>The value of \<^verbatim>\<open>transcriptionText\<close> when the extraction is over.\<close>

definition accumulate :: "(json \<Rightarrow> error + json) \<Rightarrow> query_output \<Rightarrow> error + json" where
  "accumulate fetch_url out =
     (case results out of
        None \<Rightarrow> Inr (JStr [])
      | Some rs \<Rightarrow>
         (case extract_loop fetch_url [] rs of
            Inl e \<Rightarrow> Inl e
          | Inr text' \<Rightarrow> fallback rs text'))"

text \<open>
  \<^verbatim>\<open>return transcriptionText.trim() || '...'\<close>; only a string has \<^verbatim>\<open>trim\<close>.
\<close>

definition finish :: "json \<Rightarrow> error + jsstring" where
  "finish transcriptionText =
     (case transcriptionText of
        JStr s \<Rightarrow> Inr (if trim s = [] then NO_TEXT else trim s)
      | _ \<Rightarrow> Inl (Error (ascii ''transcriptionText.trim is not a function'')))"

text \<open>The body of the outer \<^verbatim>\<open>try\<close> of \<^verbatim>\<open>audioToTextWithParaformer\<close>.\<close>

definition transcribe :: "transcription_service \<Rightarrow> (error + jsstring) \<times> event list" where
  "transcribe sv =
     (case stored_llm_config sv of
        None \<Rightarrow> (Inl (Error NEED_LLM_CONFIG_KEY), [])
      | Some config \<Rightarrow>
         if apiKey config = [] then (Inl (Error NEED_API_KEY), [])
         else (case submit sv of
                 Inl e \<Rightarrow> (Inl e, [])
               | Inr task_id \<Rightarrow>
                  if \<not> truthy task_id then (Inl (Error SUBMIT_FAILED), [])
                  else (case poll_loop (poll sv) 0 of
                          (Inl e, tr) \<Rightarrow> (Inl e, tr)
                        | (Inr out, tr) \<Rightarrow>
                           (case accumulate (fetch sv) out of
                              Inl e \<Rightarrow> (Inl e, tr)
                            | Inr transcriptionText \<Rightarrow> (finish transcriptionText, tr)))))"

text \<open>
  \<^verbatim>\<open>audioToTextWithParaformer\<close>: the \<^verbatim>\<open>catch\<close> wraps every error. (The file path and the
  task id are only logged; the URL is sent with the submit request, whose answer is a
  parameter here.)
\<close>

definition audioToTextWithParaformer ::
  "transcription_service \<Rightarrow> (error + jsstring) \<times> event list" where
  "audioToTextWithParaformer sv =
     (case transcribe sv of
        (Inl e, tr) \<Rightarrow> (Inl (Error (AUDIO_TO_TEXT_FAILED @ message e)), tr)
      | (Inr s, tr) \<Rightarrow> (Inr s, tr))"

fun is_Query :: "event \<Rightarrow> bool" where
  "is_Query (Query _) = True"
| "is_Query (Sleep _) = False"

text \<open>An answer to a status query that keeps the loop going: neither an error nor a final status.\<close>

definition still_running :: "error + query_output \<Rightarrow> bool" where
  "still_running r =
     (case r of
        Inl _ \<Rightarrow> False
      | Inr out \<Rightarrow> task_status out \<noteq> JStr (ascii ''SUCCEEDED'')
                 \<and> task_status out \<noteq> JStr (ascii ''FAILED''))"

text \<open>A service whose job stays in \<^verbatim>\<open>RUNNING\<close> for ever.\<close>

definition always_running :: transcription_service where
  "always_running =
     \<lparr>stored_llm_config =
        Some \<lparr>baseUrl = ascii ''http://llm'', model = ascii ''m'', apiKey = ascii ''k''\<rparr>,
      submit = Inr (JStr (ascii ''job-1'')),
      poll = (\<lambda>n. Inr \<lparr>task_status = JStr (ascii ''RUNNING''), output_message = JUndefined,
                        results = None\<rparr>),
      fetch = (\<lambda>u. Inr JNull)\<rparr>"

text \<open>
  \<open>s\<close> is \<open>acc\<close> without its leading and trailing white space: only white space was
  cut off on either side, and \<open>s\<close> neither begins nor ends with white space.
\<close>

definition trimmed_of :: "jsstring \<Rightarrow> jsstring \<Rightarrow> bool" where
  "trimmed_of acc s =
     ((\<exists>pre post. acc = pre @ s @ post \<and> (\<forall>c\<in>set pre. is_space c) \<and> (\<forall>c\<in>set post. is_space c))
      \<and> (s \<noteq> [] \<longrightarrow> \<not> is_space (hd s) \<and> \<not> is_space (last s)))"

text \<open>Concrete services and result entries, for the closed theorems below.\<close>

definition padded_text :: transcription_service where
  "padded_text =
     \<lparr>stored_llm_config =
        Some \<lparr>baseUrl = ascii ''http://llm'', model = ascii ''m'', apiKey = ascii ''k''\<rparr>,
      submit = Inr (JStr (ascii ''job-1'')),
      poll = (\<lambda>n. Inr \<lparr>task_status = JStr (ascii ''SUCCEEDED''), output_message = JUndefined,
                        results = Some [JObj [(ascii ''text'', JStr (ascii '' hi ''))]]\<rparr>),
      fetch = (\<lambda>u. Inr JNull)\<rparr>"

definition blank_text :: transcription_service where
  "blank_text =
     padded_text\<lparr>poll :=
       (\<lambda>n. Inr \<lparr>task_status = JStr (ascii ''SUCCEEDED''), output_message = JUndefined,
                  results = Some [JObj [(ascii ''text'', JStr (ascii ''  ''))]]\<rparr>)\<rparr>"

definition url_and_text :: json where
  "url_and_text =
     JObj [(ascii ''transcription_url'', JStr (ascii ''https://oss/result.json'')),
           (ascii ''text'', JStr (ascii ''hello''))]"

definition url_only :: json where
  "url_only = JObj [(ascii ''transcription_url'', JStr (ascii ''https://oss/result.json''))]"

definition fetch_empty_object :: "json \<Rightarrow> error + json" where
  "fetch_empty_object u = Inr (JObj [])"

definition fetch_transcript :: "json \<Rightarrow> error + json" where
  "fetch_transcript u =
     Inr (JObj [(ascii ''transcripts'', JArr [JObj [(ascii ''text'', JStr (ascii ''from url''))]])])"

definition succeeded_with :: "json list \<Rightarrow> query_output" where
  "succeeded_with rs =
     \<lparr>task_status = JStr (ascii ''SUCCEEDED''), output_message = JUndefined, results = Some rs\<rparr>"

text \<open>
  Two services whose job succeeds with the single entry \<open>url_and_text\<close>: behind the URL
  of the first there is a transcript, behind the URL of the second a body that decodes to
  nothing.
\<close>

definition url_service :: transcription_service where
  "url_service =
     padded_text\<lparr>poll := (\<lambda>n. Inr (succeeded_with [url_and_text])), fetch := fetch_transcript\<rparr>"

definition empty_body_service :: transcription_service where
  "empty_body_service = url_service\<lparr>fetch := fetch_empty_object\<rparr>"

section \<open>Tasks and the state of the server\<close>

datatype task_type = webpage | video | live

datatype task_status = pending | processing | completed | failed

text \<open>The task document (\<^verbatim>\<open>CrawlerTask\<close>); the optional fields are \<open>None\<close> when absent.\<close>

record task =
  id' :: jsstring
  name :: jsstring
  type' :: task_type
  url :: jsstring
  status :: task_status
  content :: "jsstring option"
  summary :: "jsstring option"
  audioFile :: "jsstring option"
  isRecording :: "bool option"

section \<open>Object store client\<close>

record oss_config =
  region :: "jsstring option"
  accessKeyId :: "jsstring option"
  accessKeySecret :: "jsstring option"
  bucket :: "jsstring option"

text \<open>The fields of \<^verbatim>\<open>config/ossConfig.json\<close> that \<^verbatim>\<open>createOSSClient\<close> reads.\<close>

record oss_file_config =
  file_region :: "jsstring option"
  file_access_id :: "jsstring option"
  file_accessKeyId :: "jsstring option"
  file_access_secret :: "jsstring option"
  file_accessKeySecret :: "jsstring option"
  file_bucket :: "jsstring option"

text \<open>
  What the server finds around it when a request runs: the process environment, the
  stored configuration document (\<open>None\<close> when reading or parsing it throws), whether
  the \<^verbatim>\<open>ali-oss\<close> constructor throws on a configuration, and the failures of the remote
  calls of a client (\<open>None\<close>: the call succeeds).
\<close>

record environment =
  OSS_REGION :: "jsstring option"
  OSS_ACCESS_KEY_ID :: "jsstring option"
  OSS_ACCESS_KEY_SECRET :: "jsstring option"
  OSS_BUCKET :: "jsstring option"
  ossConfig_json :: "oss_file_config option"
  new_OSS_throws :: "oss_config \<Rightarrow> bool"
  put_fails :: "jsstring \<Rightarrow> error option"
  delete_fails :: "jsstring \<Rightarrow> error option"
  list_fails :: "error option"

text \<open>Truthiness of a string that may be \<^verbatim>\<open>undefined\<close>, and \<^verbatim>\<open>a || b\<close> on such strings.\<close>

definition is_set :: "jsstring option \<Rightarrow> bool" where
  "is_set v = (case v of None \<Rightarrow> False | Some s \<Rightarrow> s \<noteq> [])"

definition or_else :: "jsstring option \<Rightarrow> jsstring option \<Rightarrow> jsstring option" where
  "or_else a b = (if is_set a then a else b)"

definition incomplete :: "oss_config \<Rightarrow> bool" where
  "incomplete c =
     (\<not> is_set (region c) \<or> \<not> is_set (accessKeyId c) \<or> \<not> is_set (accessKeySecret c)
      \<or> \<not> is_set (bucket c))"

datatype client = Client oss_config

text \<open>The two module variables behind the singleton.\<close>

record oss_state =
  ossClientInstance :: "client option"
  ossClientInitialized :: bool

definition oss_initial :: oss_state where
  "oss_initial = \<lparr>ossClientInstance = None, ossClientInitialized = False\<rparr>"

text \<open>
  The configuration that \<^verbatim>\<open>createOSSClient\<close> arrives at: the environment variables,
  and, when one of them is missing, the stored document with the environment filling
  the fields that the document lacks.
\<close>

definition resolve_config :: "environment \<Rightarrow> oss_config" where
  "resolve_config env =
     (let ossConfig = \<lparr>region = OSS_REGION env, accessKeyId = OSS_ACCESS_KEY_ID env,
                       accessKeySecret = OSS_ACCESS_KEY_SECRET env, bucket = OSS_BUCKET env\<rparr>
      in if incomplete ossConfig then
           (case ossConfig_json env of
              None \<Rightarrow> ossConfig
            | Some fileConfig \<Rightarrow>
               \<lparr>region = or_else (file_region fileConfig) (region ossConfig),
                accessKeyId = or_else (file_access_id fileConfig)
                                (or_else (file_accessKeyId fileConfig) (accessKeyId ossConfig)),
                accessKeySecret = or_else (file_access_secret fileConfig)
                                    (or_else (file_accessKeySecret fileConfig)
                                       (accessKeySecret ossConfig)),
                bucket = or_else (file_bucket fileConfig) (bucket ossConfig)\<rparr>)
         else ossConfig)"

definition createOSSClient :: "environment \<Rightarrow> oss_state \<Rightarrow> client option \<times> oss_state" where
  "createOSSClient env st =
     (if ossClientInitialized st \<and> ossClientInstance st \<noteq> None then (ossClientInstance st, st)
      else
        (let ossConfig = resolve_config env
         in if incomplete ossConfig then
              (None, \<lparr>ossClientInstance = None, ossClientInitialized = True\<rparr>)
            else if new_OSS_throws env ossConfig then
              (None, \<lparr>ossClientInstance = None, ossClientInitialized = True\<rparr>)
            else
              (Some (Client ossConfig),
               \<lparr>ossClientInstance = Some (Client ossConfig), ossClientInitialized = True\<rparr>)))"

definition resetOSSClient :: "oss_state \<Rightarrow> oss_state" where
  "resetOSSClient st = \<lparr>ossClientInstance = None, ossClientInitialized = False\<rparr>"

text \<open>
  The value a caller holds after \<^verbatim>\<open>createOSSClient()\<close>: the client or \<^verbatim>\<open>null\<close> when the
  call was awaited, the promise itself when it was not. A promise is truthy and has
  none of the methods of a client.
\<close>

datatype client_ref = Awaited "client option" | Unawaited "client option"

fun available :: "client_ref \<Rightarrow> bool" where
  "available (Awaited c) = (c \<noteq> None)"
| "available (Unawaited _) = True"

text \<open>
  The state of the server: the task documents of \<^verbatim>\<open>STORAGE_DIR\<close> by file name (without
  \<^verbatim>\<open>.json\<close>), the audio directory, the singleton, and the objects of the remote bucket.
\<close>

record world =
  tasks :: "jsstring \<rightharpoonup> task"
  audio :: dir
  oss :: oss_state
  objects :: "jsstring \<rightharpoonup> bytes"

definition not_a_function :: "string \<Rightarrow> error" where
  "not_a_function m = Error (ascii ''client.'' @ ascii m @ ascii '' is not a function'')"

definition null_read :: "string \<Rightarrow> error" where
  "null_read m =
     Error (ascii ''Cannot read properties of null (reading '' @ quote @ ascii m @ quote
            @ ascii '')'')"

text \<open>
  The public URL that \<^verbatim>\<open>ali-oss\<close> reports for an object of the bucket, for a key that
  needs no percent-encoding; the encoding of other keys is outside the model.
\<close>

definition text_of :: "jsstring option \<Rightarrow> jsstring" where
  "text_of v = (case v of None \<Rightarrow> ascii ''undefined'' | Some s \<Rightarrow> s)"

definition object_url :: "client \<Rightarrow> jsstring \<Rightarrow> jsstring" where
  "object_url c key =
     (case c of Client cfg \<Rightarrow>
        ascii ''http://'' @ text_of (bucket cfg) @ ascii ''.''
        @ text_of (region cfg) @ ascii ''.aliyuncs.com/'' @ key)"

text \<open>
  \<^verbatim>\<open>client.put(ossFileName, localFilePath, ...)\<close>, \<^verbatim>\<open>client.delete(ossFileName)\<close> and
  \<^verbatim>\<open>client.list(...)\<close> on what the caller holds.
\<close>

definition client_put ::
  "environment \<Rightarrow> client_ref \<Rightarrow> jsstring \<Rightarrow> jsstring \<Rightarrow> world \<Rightarrow> (error + jsstring) \<times> world" where
  "client_put env c ossFileName localFilePath w =
     (case c of
        Unawaited _ \<Rightarrow> (Inl (not_a_function ''put''), w)
      | Awaited None \<Rightarrow> (Inl (null_read ''put''), w)
      | Awaited (Some cl) \<Rightarrow>
         (case fs_readFile (audio w) localFilePath of
            Inl e \<Rightarrow> (Inl e, w)
          | Inr data \<Rightarrow>
             (case put_fails env ossFileName of
                Some e \<Rightarrow> (Inl e, w)
              | None \<Rightarrow> (Inr (object_url cl ossFileName),
                         w\<lparr>objects := (objects w)(ossFileName \<mapsto> data)\<rparr>))))"

definition client_delete ::
  "environment \<Rightarrow> client_ref \<Rightarrow> jsstring \<Rightarrow> world \<Rightarrow> (error + unit) \<times> world" where
  "client_delete env c ossFileName w =
     (case c of
        Unawaited _ \<Rightarrow> (Inl (not_a_function ''delete''), w)
      | Awaited None \<Rightarrow> (Inl (null_read ''delete''), w)
      | Awaited (Some cl) \<Rightarrow>
         (case delete_fails env ossFileName of
            Some e \<Rightarrow> (Inl e, w)
          | None \<Rightarrow> (Inr (), w\<lparr>objects := (objects w)(ossFileName := None)\<rparr>)))"

definition client_list :: "environment \<Rightarrow> client_ref \<Rightarrow> error + unit" where
  "client_list env c =
     (case c of
        Unawaited _ \<Rightarrow> Inl (not_a_function ''list'')
      | Awaited None \<Rightarrow> Inl (null_read ''list'')
      | Awaited (Some cl) \<Rightarrow> (case list_fails env of Some e \<Rightarrow> Inl e | None \<Rightarrow> Inr ()))"

definition OSS_INCOMPLETE :: jsstring where
  "OSS_INCOMPLETE =
     [0x4F, 0x53, 0x53, 0x914D, 0x7F6E, 0x4E0D, 0x5B8C, 0x6574, 0xFF0C, 0x8BF7, 0x68C0, 0x67E5,
      0x73AF, 0x5883, 0x53D8, 0x91CF, 0x914D, 0x7F6E]"

definition LOCAL_MISSING :: jsstring where
  "LOCAL_MISSING = [0x672C, 0x5730, 0x6587, 0x4EF6, 0x4E0D, 0x5B58, 0x5728, 0x3A, 0x20]"

definition UPLOAD_TO_OSS_FAILED :: jsstring where
  "UPLOAD_TO_OSS_FAILED =
     [0x4E0A, 0x4F20, 0x6587, 0x4EF6, 0x5230, 0x4F, 0x53, 0x53, 0x5931, 0x8D25, 0x3A, 0x20]"

definition OSS_UPLOAD_FAILED :: jsstring where
  "OSS_UPLOAD_FAILED = [0x4F, 0x53, 0x53, 0x4E0A, 0x4F20, 0x5931, 0x8D25, 0x3A, 0x20]"

definition NO_AUDIO_FILE :: jsstring where
  "NO_AUDIO_FILE = [0x672A, 0x627E, 0x5230, 0x97F3, 0x9891, 0x6587, 0x4EF6]"

definition FILE_SAVE_FAILED :: jsstring where
  "FILE_SAVE_FAILED = [0x6587, 0x4EF6, 0x4FDD, 0x5B58, 0x5931, 0x8D25]"

definition UPLOAD_OK :: jsstring where
  "UPLOAD_OK = [0x6587, 0x4EF6, 0x4E0A, 0x4F20, 0x6210, 0x529F]"

text \<open>
  \<^verbatim>\<open>uploadFileToOSS\<close> awaits the client and throws, outside its \<^verbatim>\<open>try\<close>, when there is
  none. File paths are written relative to the audio directory.
\<close>

definition uploadFileToOSS ::
  "environment \<Rightarrow> jsstring \<Rightarrow> jsstring \<Rightarrow> world \<Rightarrow> (error + jsstring) \<times> world" where
  "uploadFileToOSS env localFilePath ossFileName w =
     (let (r, st) = createOSSClient env (oss w);
          client = Awaited r;
          w1 = w\<lparr>oss := st\<rparr>
      in if \<not> available client then (Inl (Error OSS_INCOMPLETE), w1)
         else (case fs_access (audio w1) localFilePath of
                 Inl _ \<Rightarrow>
                   (Inl (Error (UPLOAD_TO_OSS_FAILED @ LOCAL_MISSING @ localFilePath)), w1)
               | Inr _ \<Rightarrow>
                  (case client_put env client ossFileName localFilePath w1 of
                     (Inl e, w2) \<Rightarrow> (Inl (Error (UPLOAD_TO_OSS_FAILED @ message e)), w2)
                   | (Inr u, w2) \<Rightarrow> (Inr u, w2))))"

text \<open>
  Answers of the HTTP handlers: the status and the JSON body, of which the model keeps
  the error text, the task, and the named strings.
\<close>

datatype body =
    ErrorBody jsstring
  | TaskBody task
  | MessageTaskBody jsstring task
  | Fields "(string \<times> jsstring) list"
  | MessageTaskInfo jsstring task "(string \<times> jsstring) list"

datatype response = Response nat body

text \<open>
  \<^verbatim>\<open>POST /api/upload-audio-file\<close>, given the file that \<^verbatim>\<open>multer\<close> stored (\<open>None\<close>: the
  request carried none) and the text of \<^verbatim>\<open>Date.now()\<close>. The handler does not await
  \<^verbatim>\<open>createOSSClient()\<close>. The ACL and head checks after the upload only log, and the
  local file is unlinked on either way out, a failure of which is logged.
\<close>

definition unlink_quietly :: "jsstring \<Rightarrow> world \<Rightarrow> world" where
  "unlink_quietly p w =
     (case fs_unlink (audio w) p of Inl _ \<Rightarrow> w | Inr d \<Rightarrow> w\<lparr>audio := d\<rparr>)"

definition upload_audio_file ::
  "environment \<Rightarrow> jsstring option \<Rightarrow> jsstring \<Rightarrow> world \<Rightarrow> response \<times> world" where
  "upload_audio_file env req_file now w =
     (case req_file of
        None \<Rightarrow> (Response 400 (ErrorBody NO_AUDIO_FILE), w)
      | Some filename \<Rightarrow>
         (case fs_access (audio w) filename of
            Inl _ \<Rightarrow> (Response 500 (ErrorBody FILE_SAVE_FAILED), w)
          | Inr _ \<Rightarrow>
             (let (r, st) = createOSSClient env (oss w);
                  client = Unawaited r;
                  w1 = w\<lparr>oss := st\<rparr>
              in if \<not> available client then (Response 500 (ErrorBody OSS_INCOMPLETE), w1)
                 else
                   (let ossFileName = ascii ''temp_audio/'' @ now @ ascii ''_'' @ filename
                    in case client_put env client ossFileName filename w1 of
                         (Inl ossError, w2) \<Rightarrow>
                           (Response 500 (ErrorBody (OSS_UPLOAD_FAILED @ message ossError)),
                            unlink_quietly filename w2)
                       | (Inr u, w2) \<Rightarrow>
                           (Response 200
                              (Fields [(''message'', UPLOAD_OK), (''fileName'', filename),
                                       (''ossFileName'', ossFileName), (''ossUrl'', u)]),
                            unlink_quietly filename w2)))))"

text \<open>\<^verbatim>\<open>testOSSConnection\<close>, which does not await the client either.\<close>

definition testOSSConnection :: "environment \<Rightarrow> oss_state \<Rightarrow> bool \<times> oss_state" where
  "testOSSConnection env st =
     (let (r, st') = createOSSClient env st;
          client = Unawaited r
      in if \<not> available client then (False, st')
         else (case client_list env client of Inl _ \<Rightarrow> (False, st') | Inr _ \<Rightarrow> (True, st')))"

text \<open>
  Two surroundings for the closed theorems: nothing configured, and a complete stored
  document with an empty process environment.
\<close>

definition unconfigured :: environment where
  "unconfigured =
     \<lparr>OSS_REGION = None, OSS_ACCESS_KEY_ID = None, OSS_ACCESS_KEY_SECRET = None,
      OSS_BUCKET = None, ossConfig_json = None, new_OSS_throws = (\<lambda>c. False),
      put_fails = (\<lambda>k. None), delete_fails = (\<lambda>k. None), list_fails = None\<rparr>"

definition stored_document :: oss_file_config where
  "stored_document =
     \<lparr>file_region = Some (ascii ''oss-cn-hangzhou''), file_access_id = Some (ascii ''id''),
      file_accessKeyId = None, file_access_secret = Some (ascii ''secret''),
      file_accessKeySecret = None, file_bucket = Some (ascii ''bkt'')\<rparr>"

definition configured :: environment where
  "configured = unconfigured\<lparr>ossConfig_json := Some stored_document\<rparr>"

definition stored_client :: client where
  "stored_client =
     Client \<lparr>region = Some (ascii ''oss-cn-hangzhou''), accessKeyId = Some (ascii ''id''),
             accessKeySecret = Some (ascii ''secret''), bucket = Some (ascii ''bkt'')\<rparr>"

definition one_upload :: world where
  "one_upload =
     \<lparr>tasks = Map.empty, audio = [(ascii ''a.webm'', [1, 2, 3])], oss = oss_initial,
      objects = Map.empty\<rparr>"

section \<open>Page text\<close>

text \<open>
  The word characters of \<^verbatim>\<open>\b\<close> and the case folding of the \<^verbatim>\<open>i\<close> flag (without the
  \<^verbatim>\<open>u\<close> flag only the ASCII letters fold onto ASCII letters).
\<close>

definition is_word :: "jschar \<Rightarrow> bool" where
  "is_word c =
     ((0x30 \<le> c \<and> c \<le> 0x39) \<or> (0x41 \<le> c \<and> c \<le> 0x5A) \<or> c = 0x5F
      \<or> (0x61 \<le> c \<and> c \<le> 0x7A))"

definition fold_case :: "jschar \<Rightarrow> jschar" where
  "fold_case c = (if 0x41 \<le> c \<and> c \<le> 0x5A then c + 0x20 else c)"

text \<open>A lower-case ASCII pattern matches at the head of a string, letters in either case.\<close>

fun matches_ci :: "jsstring \<Rightarrow> jsstring \<Rightarrow> bool" where
  "matches_ci [] s = True"
| "matches_ci (p # ps) [] = False"
| "matches_ci (p # ps) (c # cs) = (fold_case c = p \<and> matches_ci ps cs)"

text \<open>
  The regular expression
  \<^verbatim>\<open><script\b[^<]*(?:(?!<\/script>)<[^<]*)*<\/script>\<close> with the flags \<^verbatim>\<open>gi\<close> (and the
  same for \<^verbatim>\<open>style\<close>). After the opening \<^verbatim>\<open><script\<close> and the word boundary, every
  run \<^verbatim>\<open>[^<]*\<close> must reach the next \<^verbatim>\<open><\<close>, where the closing tag ends the match if it
  stands there and the group consumes the \<^verbatim>\<open><\<close> otherwise; backtracking offers no other
  way. So a match runs from the opening to the first closing tag behind it.
  \<open>find_closing\<close> returns what follows that closing tag.
\<close>

fun find_closing :: "jsstring \<Rightarrow> jsstring \<Rightarrow> jsstring option" where
  "find_closing closing [] = None"
| "find_closing closing (c # cs) =
     (if matches_ci closing (c # cs) then Some (drop (length closing) (c # cs))
      else find_closing closing cs)"

definition match_element :: "jsstring \<Rightarrow> jsstring \<Rightarrow> jsstring option" where
  "match_element tag s =
     (if matches_ci (ascii ''<'' @ tag) s then
        (let r = drop (length (ascii ''<'' @ tag)) s
         in if r \<noteq> [] \<and> is_word (hd r) then None
            else find_closing (ascii ''</'' @ tag @ ascii ''>'') r)
      else None)"

lemma find_closing_shorter:
  "find_closing closing s = Some rest \<Longrightarrow> closing \<noteq> [] \<Longrightarrow> length rest < length s"
  by (induction s) (auto split: if_splits)

lemma match_element_shorter:
  assumes "match_element tag s = Some rest"
  shows "length rest < length s"
proof -
  from assms have "find_closing (ascii ''</'' @ tag @ ascii ''>'') (drop (length (ascii ''<'' @ tag)) s)
                     = Some rest"
    by (auto simp: match_element_def Let_def split: if_splits)
  then have "length rest < length (drop (length (ascii ''<'' @ tag)) s)"
    by (rule find_closing_shorter) (simp add: ascii_def)
  then show ?thesis by simp
qed

text \<open>\<^verbatim>\<open>text.replace(/<tag\b...<\/tag>/gi, '')\<close>: the matches from left to right are cut out.\<close>

function remove_elements :: "jsstring \<Rightarrow> jsstring \<Rightarrow> jsstring" where
  "remove_elements tag [] = []"
| "remove_elements tag (c # cs) =
     (case match_element tag (c # cs) of
        Some rest \<Rightarrow> remove_elements tag rest
      | None \<Rightarrow> c # remove_elements tag cs)"
  by pat_completeness auto
termination
  by (relation "measure (\<lambda>(tag, s). length s)") (auto dest: match_element_shorter)

lemma length_tl_dropWhile: "length (tl (dropWhile P xs)) \<le> length xs"
  using length_dropWhile_le [of P xs] by simp

text \<open>
  \<^verbatim>\<open>text.replace(/<[^>]+>/g, ' ')\<close>: a match is a \<^verbatim>\<open><\<close>, at least one character that is
  not \<^verbatim>\<open>>\<close>, and the first \<^verbatim>\<open>>\<close> behind them.
\<close>

function replace_tags :: "jsstring \<Rightarrow> jsstring" where
  "replace_tags [] = []"
| "replace_tags (c # cs) =
     (if c = 0x3C \<and> takeWhile (\<lambda>x. x \<noteq> 0x3E) cs \<noteq> [] \<and> dropWhile (\<lambda>x. x \<noteq> 0x3E) cs \<noteq> []
      then 0x20 # replace_tags (tl (dropWhile (\<lambda>x. x \<noteq> 0x3E) cs))
      else c # replace_tags cs)"
  by pat_completeness auto
termination
  by (relation "measure length") (auto simp: less_Suc_eq_le length_tl_dropWhile simp del: length_tl)

text \<open>\<^verbatim>\<open>text.replace(/\s+/g, ' ')\<close>.\<close>

function collapse_whitespace :: "jsstring \<Rightarrow> jsstring" where
  "collapse_whitespace [] = []"
| "collapse_whitespace (c # cs) =
     (if is_space c then 0x20 # collapse_whitespace (dropWhile is_space cs)
      else c # collapse_whitespace cs)"
  by pat_completeness auto
termination
  by (relation "measure length") (auto simp: less_Suc_eq_le length_dropWhile_le)

text \<open>The text of \<^verbatim>\<open>fetchWebPageContent\<close> before and after \<^verbatim>\<open>substring(0, 10000)\<close>.\<close>

definition clean_text :: "jsstring \<Rightarrow> jsstring" where
  "clean_text text =
     trim (collapse_whitespace
             (replace_tags (remove_elements (ascii ''style'') (remove_elements (ascii ''script'') text))))"

definition page_text :: "jsstring \<Rightarrow> jsstring" where
  "page_text text = take 10000 (clean_text text)"
text \<open>Two recursive tests used in the proofs: a tag-shaped substring, and no two adjacent white spaces.\<close>

fun has_tag :: "jsstring \<Rightarrow> bool" where
  "has_tag [] = False"
| "has_tag (c # cs) = ((c = 0x3C \<and> cs \<noteq> [] \<and> hd cs \<noteq> 0x3E \<and> 0x3E \<in> set cs) \<or> has_tag cs)"

fun single_spaced :: "jsstring \<Rightarrow> bool" where
  "single_spaced (c # d # s) = (\<not> (is_space c \<and> is_space d) \<and> single_spaced (d # s))"
| "single_spaced _ = True"

text \<open>
  What the claims about the page text speak of: a substring of the shape of a tag
  (\<^verbatim>\<open><\<close>, one or more characters other than \<^verbatim>\<open>>\<close>, \<^verbatim>\<open>>\<close>), text whose white space is
  collapsed, and an element with its opening tag, content and exact closing tag.
\<close>

definition contains_tag :: "jsstring \<Rightarrow> bool" where
  "contains_tag s = (\<exists>pre b post. s = pre @ [0x3C] @ b @ [0x3E] @ post \<and> b \<noteq> [] \<and> 0x3E \<notin> set b)"

definition whitespace_collapsed :: "jsstring \<Rightarrow> bool" where
  "whitespace_collapsed t =
     ((\<forall>c\<in>set t. is_space c \<longrightarrow> c = 0x20)
      \<and> \<not> (\<exists>pre c d post. t = pre @ c # d # post \<and> is_space c \<and> is_space d)
      \<and> (t \<noteq> [] \<longrightarrow> \<not> is_space (hd t) \<and> \<not> is_space (last t)))"

definition tagless :: "jsstring \<Rightarrow> jsstring" where
  "tagless text =
     replace_tags (remove_elements (ascii ''style'') (remove_elements (ascii ''script'') text))"

definition closing :: "jsstring \<Rightarrow> jsstring" where
  "closing tag = ascii ''</'' @ tag @ ascii ''>''"

definition element :: "jsstring \<Rightarrow> jsstring \<Rightarrow> jsstring \<Rightarrow> jsstring" where
  "element tag attrs inner = ascii ''<'' @ tag @ attrs @ ascii ''>'' @ inner @ closing tag"

fun occurs_ci :: "jsstring \<Rightarrow> jsstring \<Rightarrow> bool" where
  "occurs_ci pat [] = matches_ci pat []"
| "occurs_ci pat (c # cs) = (matches_ci pat (c # cs) \<or> occurs_ci pat cs)"

definition tag_name :: "jsstring \<Rightarrow> bool" where
  "tag_name tag = list_all (\<lambda>c. fold_case c = c \<and> c \<noteq> 0x3C) tag"

section \<open>Summarization client and page fetch\<close>

text \<open>
  The answer of the chat endpoint to \<^verbatim>\<open>axios.post\<close>: an error with a response (status
  and body, both as the text the message embeds), an error without one, or the contents
  of the choices.
\<close>

datatype llm_reply =
    HttpFailure jsstring jsstring
  | NetworkFailure error
  | Choices "jsstring list"

text \<open>
  Everything outside the server that a pipeline talks to: the transcription service with
  the stored LLM configuration, the page behind a URL (\<^verbatim>\<open>response.data\<close>), the chat
  endpoint, and the surroundings of the object store client.
\<close>

record services =
  transcription :: transcription_service
  page :: "jsstring \<Rightarrow> error + json"
  chat :: "llm_config \<Rightarrow> jsstring \<Rightarrow> llm_reply"
  surroundings :: environment

definition FETCH_PAGE_FAILED :: jsstring where
  "FETCH_PAGE_FAILED =
     [0x83B7, 0x53D6, 0x7F51, 0x9875, 0x5185, 0x5BB9, 0x5931, 0x8D25, 0x3A, 0x20]"

definition NEED_LLM_CONFIG :: jsstring where
  "NEED_LLM_CONFIG = [0x8BF7, 0x5148, 0x914D, 0x7F6E, 0x4C, 0x4C, 0x4D, 0x53C2, 0x6570]"

definition LLM_INCOMPLETE :: jsstring where
  "LLM_INCOMPLETE = [0x4C, 0x4C, 0x4D, 0x914D, 0x7F6E, 0x4E0D, 0x5B8C, 0x6574]"

definition LLM_API_ERROR :: jsstring where
  "LLM_API_ERROR = [0x4C, 0x4C, 0x4D, 0x20, 0x41, 0x50, 0x49, 0x9519, 0x8BEF, 0x3A, 0x20]"

definition LLM_CALL_FAILED :: jsstring where
  "LLM_CALL_FAILED = [0x8C03, 0x7528, 0x4C, 0x4C, 0x4D, 0x5931, 0x8D25, 0x3A, 0x20]"

definition LLM_EMPTY :: jsstring where
  "LLM_EMPTY = [0x4C, 0x4C, 0x4D, 0x672A, 0x8FD4, 0x56DE, 0x6709, 0x6548, 0x5185, 0x5BB9]"

text \<open>
  \<^verbatim>\<open>fetchWebPageContent\<close>: a body that is not a string has no \<^verbatim>\<open>replace\<close>, and every
  error is rethrown wrapped.
\<close>

definition fetchWebPageContent :: "services \<Rightarrow> jsstring \<Rightarrow> error + jsstring" where
  "fetchWebPageContent sv u =
     (case (case page sv u of
              Inl e \<Rightarrow> Inl e
            | Inr (JStr text) \<Rightarrow> Inr (page_text text)
            | Inr JUndefined \<Rightarrow>
                (case get JUndefined ''replace'' of Inl e \<Rightarrow> Inl e | Inr _ \<Rightarrow> Inr [])
            | Inr JNull \<Rightarrow>
                (case get JNull ''replace'' of Inl e \<Rightarrow> Inl e | Inr _ \<Rightarrow> Inr [])
            | Inr _ \<Rightarrow> Inl (Error (ascii ''text.replace is not a function''))) of
        Inl error \<Rightarrow> Inl (Error (FETCH_PAGE_FAILED @ message error))
      | Inr text \<Rightarrow> Inr text)"

text \<open>\<^verbatim>\<open>generateSummaryWithLLM\<close>; its \<^verbatim>\<open>catch\<close> rewraps its own errors too.\<close>

definition generateSummaryWithLLM :: "services \<Rightarrow> jsstring \<Rightarrow> llm_config \<Rightarrow> error + jsstring" where
  "generateSummaryWithLLM sv content' llmConfig =
     (if baseUrl llmConfig = [] \<or> model llmConfig = [] \<or> apiKey llmConfig = [] then
        Inl (Error (LLM_CALL_FAILED @ LLM_INCOMPLETE))
      else
        (case chat sv llmConfig content' of
           HttpFailure st data \<Rightarrow> Inl (Error (LLM_API_ERROR @ st @ ascii '' - '' @ data))
         | NetworkFailure e \<Rightarrow> Inl (Error (LLM_CALL_FAILED @ message e))
         | Choices [] \<Rightarrow> Inl (Error (LLM_CALL_FAILED @ LLM_EMPTY))
         | Choices (c # _) \<Rightarrow> Inr c))"

section \<open>Task record store\<close>

definition READ_TASK_FAILED :: jsstring where
  "READ_TASK_FAILED = [0x8BFB, 0x53D6, 0x4EFB, 0x52A1, 0x5931, 0x8D25, 0x3A, 0x20]"

definition readTask :: "world \<Rightarrow> jsstring \<Rightarrow> error + task" where
  "readTask w taskId =
     (case tasks w taskId of
        None \<Rightarrow> Inl (Error (READ_TASK_FAILED @ message (enoent ''open'' (taskId @ ascii ''.json''))))
      | Some t \<Rightarrow> Inr t)"

definition saveTask :: "world \<Rightarrow> task \<Rightarrow> world" where
  "saveTask w t = w\<lparr>tasks := (tasks w)(id' t \<mapsto> t)\<rparr>"

section \<open>Task orchestrator\<close>

definition PROCESS_FAILED :: jsstring where
  "PROCESS_FAILED = [0x5904, 0x7406, 0x5931, 0x8D25, 0x3A, 0x20]"

definition SUMMARY_FAILED :: jsstring where
  "SUMMARY_FAILED = [0x6458, 0x8981, 0x751F, 0x6210, 0x5931, 0x8D25, 0x3A, 0x20]"

definition NOT_WEBPAGE :: jsstring where
  "NOT_WEBPAGE =
     [0x4EFB, 0x52A1, 0x4E0D, 0x5B58, 0x5728, 0x6216, 0x4E0D, 0x662F, 0x7F51, 0x9875, 0x4EFB,
      0x52A1]"

definition NOT_LIVE :: jsstring where
  "NOT_LIVE =
     [0x4EFB, 0x52A1, 0x4E0D, 0x5B58, 0x5728, 0x6216, 0x4E0D, 0x662F, 0x76F4, 0x64AD, 0x4EFB,
      0x52A1]"

definition NO_AUDIO_FOUND :: jsstring where
  "NO_AUDIO_FOUND =
     [0x672A, 0x627E, 0x5230, 0x5F55, 0x5236, 0x7684, 0x97F3, 0x9891, 0x6587, 0x4EF6]"

definition INPUT_MISSING :: jsstring where
  "INPUT_MISSING = [0x8F93, 0x5165, 0x6587, 0x4EF6, 0x4E0D, 0x5B58, 0x5728, 0x3A, 0x20]"

definition RECORDING_DONE :: jsstring where
  "RECORDING_DONE = [0x97F3, 0x9891, 0x5F55, 0x5236, 0x5B8C, 0x6210]"

definition RECORDING_STOPPED :: jsstring where
  "RECORDING_STOPPED =
     [0x5F55, 0x5236, 0x5DF2, 0x505C, 0x6B62, 0xFF0C, 0x6587, 0x4EF6, 0x5904, 0x7406, 0x5B8C,
      0x6210]"

definition AUDIO_MISSING :: jsstring where
  "AUDIO_MISSING =
     [0x97F3, 0x9891, 0x6587, 0x4EF6, 0x4E0D, 0x5B58, 0x5728, 0xFF0C, 0x8BF7, 0x5148, 0x5B8C,
      0x6210, 0x5F55, 0x5236]"

definition UPLOAD_DONE :: jsstring where
  "UPLOAD_DONE =
     [0x97F3, 0x9891, 0x6587, 0x4EF6, 0x4E0A, 0x4F20, 0x5B8C, 0x6210, 0xFF0C, 0x7B49, 0x5F85,
      0x751F, 0x6210, 0x6458, 0x8981]"

definition MISSING_PARAMS :: jsstring where
  "MISSING_PARAMS =
     [0x7F3A, 0x5C11, 0x5FC5, 0x8981, 0x53C2, 0x6570, 0x3A, 0x20, 0x74, 0x61, 0x73, 0x6B, 0x49,
      0x64, 0x20, 0x6216, 0x20, 0x66, 0x69, 0x6C, 0x65, 0x55, 0x72, 0x6C]"

definition SUMMARY_DONE :: jsstring where
  "SUMMARY_DONE = [0x97F3, 0x9891, 0x6458, 0x8981, 0x751F, 0x6210, 0x5B8C, 0x6210]"

text \<open>
  What the \<^verbatim>\<open>try\<close> block of a handler comes to: the response it sent, or the error it
  threw, each with the state of the server at that point.
\<close>

datatype outcome = Sent response world | Thrown error world

text \<open>
  The \<^verbatim>\<open>catch\<close> blocks of the handlers: read the task again, mark it failed, write the
  cause into its summary, save it, and answer 500. A failure in there is only logged.
  The handler of \<^verbatim>\<open>stop-recording\<close> also sets \<^verbatim>\<open>isRecording\<close> to \<^verbatim>\<open>false\<close>.
\<close>

definition mark_failed :: "jsstring \<Rightarrow> jsstring \<Rightarrow> error \<Rightarrow> world \<Rightarrow> response \<times> world" where
  "mark_failed prefix taskId error w =
     (Response 500 (ErrorBody (message error)),
      (case readTask w taskId of
         Inl saveError \<Rightarrow> w
       | Inr t \<Rightarrow> saveTask w (t\<lparr>status := failed, summary := Some (prefix @ message error)\<rparr>)))"

definition mark_failed_stop :: "jsstring \<Rightarrow> error \<Rightarrow> world \<Rightarrow> response \<times> world" where
  "mark_failed_stop taskId error w =
     (Response 500 (ErrorBody (message error)),
      (case readTask w taskId of
         Inl saveError \<Rightarrow> w
       | Inr t \<Rightarrow>
          saveTask w (t\<lparr>status := failed, isRecording := Some False,
                          summary := Some (PROCESS_FAILED @ message error)\<rparr>)))"

text \<open>\<^verbatim>\<open>POST /api/process-webpage/:id\<close>.\<close>

definition process_webpage_try :: "services \<Rightarrow> jsstring \<Rightarrow> world \<Rightarrow> outcome" where
  "process_webpage_try sv req_id w =
     (case readTask w req_id of
        Inl e \<Rightarrow> Thrown e w
      | Inr t \<Rightarrow>
         if type' t \<noteq> webpage then Sent (Response 400 (ErrorBody NOT_WEBPAGE)) w
         else
           (let t1 = t\<lparr>status := processing\<rparr>;
                w1 = saveTask w t1
            in case fetchWebPageContent sv (url t1) of
                 Inl e \<Rightarrow> Thrown e w1
               | Inr content' \<Rightarrow>
                  (let t2 = t1\<lparr>content := Some content'\<rparr>;
                       w2 = saveTask w1 t2
                   in case stored_llm_config (transcription sv) of
                        None \<Rightarrow> Thrown (Error NEED_LLM_CONFIG) w2
                      | Some llmConfig \<Rightarrow>
                         (case generateSummaryWithLLM sv content' llmConfig of
                            Inl e \<Rightarrow> Thrown e w2
                          | Inr summary' \<Rightarrow>
                             (let t3 = t2\<lparr>summary := Some summary', status := completed\<rparr>;
                                  w3 = saveTask w2 t3
                              in Sent (Response 200 (TaskBody t3)) w3)))))"

definition process_webpage :: "services \<Rightarrow> jsstring \<Rightarrow> world \<Rightarrow> response \<times> world" where
  "process_webpage sv req_id w =
     (case process_webpage_try sv req_id w of
        Sent r w' \<Rightarrow> (r, w')
      | Thrown error w' \<Rightarrow> mark_failed PROCESS_FAILED req_id error w')"

text \<open>
  \<^verbatim>\<open>stopLiveRecording\<close>: the first file of the audio directory whose name up to the last
  dot is the task id is renamed to \<^verbatim>\<open>{taskId}.webm\<close>. A name without a dot has the empty
  name before it (\<^verbatim>\<open>substring(0, -1)\<close>).
\<close>

definition without_ext :: "jsstring \<Rightarrow> jsstring" where
  "without_ext file =
     (if 0x2E \<in> set file then rev (tl (dropWhile (\<lambda>c. c \<noteq> 0x2E) (rev file))) else [])"

definition stopLiveRecording :: "jsstring \<Rightarrow> dir \<Rightarrow> (error + jsstring) \<times> dir" where
  "stopLiveRecording taskId d =
     (case find (\<lambda>file. without_ext file = taskId) (fs_readdir d) of
        None \<Rightarrow> (Inl (Error NO_AUDIO_FOUND), d)
      | Some audioFile' \<Rightarrow>
         (let outputFile = taskId @ ascii ''.webm''
          in case fs_access d audioFile' of
               Inl _ \<Rightarrow> (Inl (Error (INPUT_MISSING @ audioFile')), d)
             | Inr _ \<Rightarrow>
                (case fs_rename d audioFile' outputFile of
                   Inl e \<Rightarrow> (Inl e, d)
                 | Inr d' \<Rightarrow> (Inr outputFile, d'))))"

text \<open>\<^verbatim>\<open>POST /api/stop-recording/:id\<close>.\<close>

definition stop_recording_try :: "jsstring \<Rightarrow> world \<Rightarrow> outcome" where
  "stop_recording_try req_id w =
     (case readTask w req_id of
        Inl e \<Rightarrow> Thrown e w
      | Inr t \<Rightarrow>
         if type' t \<noteq> live then Sent (Response 400 (ErrorBody NOT_LIVE)) w
         else
           (case stopLiveRecording (id' t) (audio w) of
              (Inl e, d) \<Rightarrow> Thrown e (w\<lparr>audio := d\<rparr>)
            | (Inr _, d) \<Rightarrow>
               (let t1 = t\<lparr>status := completed, isRecording := Some False,
                            summary := Some RECORDING_DONE,
                            audioFile := Some (id' t @ ascii ''.webm'')\<rparr>;
                    w1 = saveTask (w\<lparr>audio := d\<rparr>) t1
                in Sent (Response 200 (MessageTaskBody RECORDING_STOPPED t1)) w1)))"

definition stop_recording :: "jsstring \<Rightarrow> world \<Rightarrow> response \<times> world" where
  "stop_recording req_id w =
     (case stop_recording_try req_id w of
        Sent r w' \<Rightarrow> (r, w')
      | Thrown error w' \<Rightarrow> mark_failed_stop req_id error w')"

text \<open>
  \<^verbatim>\<open>POST /api/generate-audio-summary/:id\<close>: the precondition on the canonical audio file,
  then the upload under the key that the task id fixes.
\<close>

definition generate_audio_summary_try :: "services \<Rightarrow> jsstring \<Rightarrow> world \<Rightarrow> outcome" where
  "generate_audio_summary_try sv req_id w =
     (case readTask w req_id of
        Inl e \<Rightarrow> Thrown e w
      | Inr t \<Rightarrow>
         if type' t \<noteq> live then Sent (Response 400 (ErrorBody NOT_LIVE)) w
         else
           (let audioFilePath = id' t @ ascii ''.webm''
            in case fs_access (audio w) audioFilePath of
                 Inl _ \<Rightarrow> Sent (Response 400 (ErrorBody AUDIO_MISSING)) w
               | Inr _ \<Rightarrow>
                  (let t1 = t\<lparr>status := processing\<rparr>;
                       w1 = saveTask w t1;
                       ossFileName = ascii ''temp_audio/'' @ id' t1 @ ascii ''.webm''
                   in case uploadFileToOSS (surroundings sv) audioFilePath ossFileName w1 of
                        (Inl processError, w2) \<Rightarrow> Thrown processError w2
                      | (Inr fileUrl, w2) \<Rightarrow>
                          Sent (Response 200
                                  (MessageTaskInfo UPLOAD_DONE t1
                                     [(''fileName'', ossFileName), (''taskId'', id' t1),
                                      (''fileUrl'', fileUrl)]))
                               w2)))"

definition generate_audio_summary :: "services \<Rightarrow> jsstring \<Rightarrow> world \<Rightarrow> response \<times> world" where
  "generate_audio_summary sv req_id w =
     (case generate_audio_summary_try sv req_id w of
        Sent r w' \<Rightarrow> (r, w')
      | Thrown error w' \<Rightarrow> mark_failed SUMMARY_FAILED req_id error w')"

text \<open>
  \<^verbatim>\<open>POST /api/process-audio-summary\<close>, on the \<^verbatim>\<open>taskId\<close> and \<^verbatim>\<open>fileUrl\<close> of the request
  body (\<open>None\<close> when missing).
\<close>

definition process_audio_summary_try ::
  "services \<Rightarrow> jsstring option \<Rightarrow> jsstring option \<Rightarrow> world \<Rightarrow> outcome" where
  "process_audio_summary_try sv taskId fileUrl w =
     (if \<not> is_set taskId \<or> \<not> is_set fileUrl then
        Sent (Response 400 (ErrorBody MISSING_PARAMS)) w
      else
        (case readTask w (text_of taskId) of
           Inl e \<Rightarrow> Thrown e w
         | Inr t \<Rightarrow>
            if type' t \<noteq> live then Sent (Response 400 (ErrorBody NOT_LIVE)) w
            else
              (let t1 = t\<lparr>status := processing\<rparr>;
                   w1 = saveTask w t1
               in case fst (audioToTextWithParaformer (transcription sv)) of
                    Inl processError \<Rightarrow> Thrown processError w1
                  | Inr textContent \<Rightarrow>
                     (let t2 = t1\<lparr>content := Some textContent\<rparr>;
                          w2 = saveTask w1 t2
                      in case stored_llm_config (transcription sv) of
                           None \<Rightarrow> Thrown (Error NEED_LLM_CONFIG) w2
                         | Some llmConfig \<Rightarrow>
                            (case generateSummaryWithLLM sv textContent llmConfig of
                               Inl processError \<Rightarrow> Thrown processError w2
                             | Inr summary' \<Rightarrow>
                                (let t3 = t2\<lparr>summary := Some summary', status := completed\<rparr>;
                                     w3 = saveTask w2 t3
                                 in Sent (Response 200 (MessageTaskBody SUMMARY_DONE t3)) w3))))))"

definition process_audio_summary ::
  "services \<Rightarrow> jsstring option \<Rightarrow> jsstring option \<Rightarrow> world \<Rightarrow> response \<times> world" where
  "process_audio_summary sv taskId fileUrl w =
     (case process_audio_summary_try sv taskId fileUrl w of
        Sent r w' \<Rightarrow> (r, w')
      | Thrown error w' \<Rightarrow> mark_failed SUMMARY_FAILED (text_of taskId) error w')"

text \<open>
  A live task that is still recording, the state of a server that holds it together with
  its uploaded audio, and services whose transcription job fails at the first status
  query with the message \<^verbatim>\<open>bad audio\<close>.
\<close>

definition recording_task :: task where
  "recording_task =
     \<lparr>id' = ascii ''t1'', name = ascii ''talk'', type' = live, url = ascii ''https://example.com/live'',
      status = processing, content = None, summary = None, audioFile = None,
      isRecording = Some True\<rparr>"

definition recording_world :: world where
  "recording_world =
     \<lparr>tasks = [ascii ''t1'' \<mapsto> recording_task], audio = [(ascii ''t1.webm'', [1, 2, 3])],
      oss = oss_initial, objects = [ascii ''temp_audio/t1.webm'' \<mapsto> [1, 2, 3]]\<rparr>"

definition bad_audio :: services where
  "bad_audio =
     \<lparr>transcription =
        \<lparr>stored_llm_config =
           Some \<lparr>baseUrl = ascii ''http://llm'', model = ascii ''m'', apiKey = ascii ''k''\<rparr>,
         submit = Inr (JStr (ascii ''job-1'')),
         poll = (\<lambda>n. Inr \<lparr>task_status = JStr (ascii ''FAILED''),
                           output_message = JStr (ascii ''bad audio''), results = None\<rparr>),
         fetch = (\<lambda>u. Inr JNull)\<rparr>,
      page = (\<lambda>u. Inl (Error (ascii ''timeout of 10000ms exceeded''))),
      chat = (\<lambda>c t. Choices [ascii ''# Summary'']),
      surroundings = configured\<rparr>"

definition silent_world :: world where
  "silent_world = recording_world\<lparr>audio := []\<rparr>"

definition page_task :: task where
  "page_task =
     \<lparr>id' = ascii ''t2'', name = ascii ''page'', type' = webpage, url = ascii ''https://example.com'',
      status = pending, content = None, summary = None, audioFile = None,
      isRecording = None\<rparr>"

definition page_world :: world where
  "page_world =
     \<lparr>tasks = [ascii ''t2'' \<mapsto> page_task], audio = [], oss = oss_initial, objects = Map.empty\<rparr>"

definition fails_on_second :: services where
  "fails_on_second =
     bad_audio\<lparr>transcription :=
       (transcription bad_audio)\<lparr>poll :=
          (\<lambda>n. if n = 1
                then Inr \<lparr>task_status = JStr (ascii ''RUNNING''), output_message = JUndefined,
                          results = None\<rparr>
                else Inr \<lparr>task_status = JStr (ascii ''FAILED''),
                          output_message = JStr (ascii ''bad audio''), results = None\<rparr>)\<rparr>\<rparr>"

text \<open>
  Services whose page and transcription succeed while the chat endpoint is unreachable and
  the object store is not configured, and the same without a stored LLM configuration.
\<close>

definition llm_down :: services where
  "llm_down =
     \<lparr>transcription = padded_text,
      page = (\<lambda>u. Inr (JStr (ascii ''<p>Hello</p>''))),
      chat = (\<lambda>c t. NetworkFailure (Error (ascii ''socket hang up''))),
      surroundings = unconfigured\<rparr>"

definition no_llm_config :: services where
  "no_llm_config = llm_down\<lparr>transcription := padded_text\<lparr>stored_llm_config := None\<rparr>\<rparr>"

section \<open>Properties of merge\<close>

lemma suffix_neq: "ascii ''_temp.webm'' \<noteq> ascii ''.webm''"
  by (simp add: ascii_def)

lemma temp_neq_final: "taskId @ ascii ''_temp.webm'' \<noteq> taskId @ ascii ''.webm''"
  by (simp add: suffix_neq)

lemma merge_no_temp:
  assumes "map_of d (taskId @ ascii ''_temp.webm'') = None"
  shows "mergeAudioFiles taskId d = (Inl (Error (MERGE_FAILED @ TEMP_MISSING)), d)"
  using assms by (simp add: mergeAudioFiles_def fs_access_def)

lemma merge_rename:
  assumes "map_of d (taskId @ ascii ''_temp.webm'') = Some tb"
    and "map_of d (taskId @ ascii ''.webm'') = None"
  shows "mergeAudioFiles taskId d =
           (Inr (taskId @ ascii ''.webm''),
            AList.update (taskId @ ascii ''.webm'') tb
              (AList.delete (taskId @ ascii ''_temp.webm'') d))"
  using assms temp_neq_final [of taskId]
  by (simp add: mergeAudioFiles_def merge_try_def fs_access_def fs_rename_def Let_def)

lemma merge_append:
  assumes "map_of d (taskId @ ascii ''_temp.webm'') = Some tb"
    and "map_of d (taskId @ ascii ''.webm'') = Some fb"
  shows "mergeAudioFiles taskId d =
           (Inr (taskId @ ascii ''.webm''),
            AList.delete (taskId @ ascii ''_temp.webm'')
              (AList.update (taskId @ ascii ''.webm'') (fb @ tb) d))"
  using assms temp_neq_final [of taskId]
  by (simp add: mergeAudioFiles_def merge_try_def fs_access_def fs_readFile_def
      fs_writeFile_def fs_unlink_def update_conv' Let_def)

lemma merge_done_no_temp:
  assumes "mergeAudioFiles taskId d = (Inr f, d')"
  shows "map_of d' (taskId @ ascii ''_temp.webm'') = None"
proof (cases "map_of d (taskId @ ascii ''_temp.webm'')")
  case None
  with assms show ?thesis by (simp add: merge_no_temp)
next
  case (Some tb)
  show ?thesis
  proof (cases "map_of d (taskId @ ascii ''.webm'')")
    case None
    with Some assms show ?thesis
      by (auto simp: merge_rename update_conv' delete_conv' suffix_neq)
  next
    case (Some fb)
    with \<open>map_of d (taskId @ ascii ''_temp.webm'') = Some tb\<close> assms show ?thesis
      by (auto simp: merge_append delete_conv')
  qed
qed

text \<open>
  C3. \<^verbatim>\<open>mergeAudioFiles(taskId)\<close>: with no temp file it fails with the not-found
  error and changes nothing; with a temp file and no canonical file it is the rename of
  temp to canonical; with both it writes canonical := canonical bytes ++ temp bytes and
  deletes temp; a second call right after a completed merge fails with the not-found
  error and leaves every file as the first call left it, so nothing is appended twice.
\<close>

theorem merge_contract:
  "(map_of d (taskId @ ascii ''_temp.webm'') = None \<longrightarrow>
      mergeAudioFiles taskId d = (Inl (Error (MERGE_FAILED @ TEMP_MISSING)), d))
   \<and> (map_of d (taskId @ ascii ''_temp.webm'') = Some tb \<and>
        map_of d (taskId @ ascii ''.webm'') = None \<longrightarrow>
        fst (mergeAudioFiles taskId d) = Inr (taskId @ ascii ''.webm'') \<and>
        Inr (snd (mergeAudioFiles taskId d)) =
          fs_rename d (taskId @ ascii ''_temp.webm'') (taskId @ ascii ''.webm'') \<and>
        map_of (snd (mergeAudioFiles taskId d)) =
          (map_of d)(taskId @ ascii ''_temp.webm'' := None, taskId @ ascii ''.webm'' \<mapsto> tb))
   \<and> (map_of d (taskId @ ascii ''_temp.webm'') = Some tb \<and>
        map_of d (taskId @ ascii ''.webm'') = Some fb \<longrightarrow>
        fst (mergeAudioFiles taskId d) = Inr (taskId @ ascii ''.webm'') \<and>
        map_of (snd (mergeAudioFiles taskId d)) =
          (map_of d)(taskId @ ascii ''.webm'' \<mapsto> fb @ tb, taskId @ ascii ''_temp.webm'' := None))
   \<and> (mergeAudioFiles taskId d = (Inr f, d') \<longrightarrow>
        mergeAudioFiles taskId d' = (Inl (Error (MERGE_FAILED @ TEMP_MISSING)), d'))"
proof (intro conjI impI)
  assume "map_of d (taskId @ ascii ''_temp.webm'') = None"
  then show "mergeAudioFiles taskId d = (Inl (Error (MERGE_FAILED @ TEMP_MISSING)), d)"
    by (rule merge_no_temp)
next
  assume a: "map_of d (taskId @ ascii ''_temp.webm'') = Some tb \<and>
             map_of d (taskId @ ascii ''.webm'') = None"
  note r = merge_rename [OF conjunct1 [OF a] conjunct2 [OF a]]
  show "fst (mergeAudioFiles taskId d) = Inr (taskId @ ascii ''.webm'')"
    by (simp add: r)
  show "Inr (snd (mergeAudioFiles taskId d)) =
          fs_rename d (taskId @ ascii ''_temp.webm'') (taskId @ ascii ''.webm'')"
    using a temp_neq_final [of taskId] by (simp add: r fs_rename_def)
  show "map_of (snd (mergeAudioFiles taskId d)) =
          (map_of d)(taskId @ ascii ''_temp.webm'' := None, taskId @ ascii ''.webm'' \<mapsto> tb)"
    by (simp add: r update_conv' delete_conv')
next
  assume a: "map_of d (taskId @ ascii ''_temp.webm'') = Some tb \<and>
             map_of d (taskId @ ascii ''.webm'') = Some fb"
  note r = merge_append [OF conjunct1 [OF a] conjunct2 [OF a]]
  show "fst (mergeAudioFiles taskId d) = Inr (taskId @ ascii ''.webm'')"
    by (simp add: r)
  show "map_of (snd (mergeAudioFiles taskId d)) =
          (map_of d)(taskId @ ascii ''.webm'' \<mapsto> fb @ tb, taskId @ ascii ''_temp.webm'' := None)"
    by (simp add: r update_conv' delete_conv')
next
  assume "mergeAudioFiles taskId d = (Inr f, d')"
  then have "map_of d' (taskId @ ascii ''_temp.webm'') = None"
    by (rule merge_done_no_temp)
  then show "mergeAudioFiles taskId d' = (Inl (Error (MERGE_FAILED @ TEMP_MISSING)), d')"
    by (rule merge_no_temp)
qed

theorem merge_contract_witness:
  "map_of ([] :: dir) (ascii ''t1'' @ ascii ''_temp.webm'') = None
   \<and> mergeAudioFiles (ascii ''t1'') [] = (Inl (Error (MERGE_FAILED @ TEMP_MISSING)), [])
   \<and> map_of [(ascii ''t1_temp.webm'', [1, 2 :: 8 word])] (ascii ''t1'' @ ascii ''_temp.webm'')
         = Some [1, 2]
   \<and> map_of [(ascii ''t1_temp.webm'', [1, 2 :: 8 word])] (ascii ''t1'' @ ascii ''.webm'') = None
   \<and> map_of (snd (mergeAudioFiles (ascii ''t1'') [(ascii ''t1_temp.webm'', [1, 2])]))
         (ascii ''t1'' @ ascii ''.webm'') = Some [1, 2]
   \<and> map_of [(ascii ''t1.webm'', [9 :: 8 word]), (ascii ''t1_temp.webm'', [1, 2])]
         (ascii ''t1'' @ ascii ''.webm'') = Some [9]
   \<and> map_of (snd (mergeAudioFiles (ascii ''t1'')
                      [(ascii ''t1.webm'', [9]), (ascii ''t1_temp.webm'', [1, 2])]))
         (ascii ''t1'' @ ascii ''.webm'') = Some [9, 1, 2]
   \<and> mergeAudioFiles (ascii ''t1'') [(ascii ''t1.webm'', [9]), (ascii ''t1_temp.webm'', [1, 2])]
         = (Inr (ascii ''t1.webm''), [(ascii ''t1.webm'', [9, 1, 2])])
   \<and> mergeAudioFiles (ascii ''t1'') [(ascii ''t1.webm'', [9, 1, 2])]
         = (Inl (Error (MERGE_FAILED @ TEMP_MISSING)), [(ascii ''t1.webm'', [9, 1, 2])])"
proof -
  let ?t = "ascii ''t1''"
  let ?d1 = "[(ascii ''t1_temp.webm'', [1, 2 :: 8 word])]"
  let ?d2 = "[(ascii ''t1.webm'', [9 :: 8 word]), (ascii ''t1_temp.webm'', [1, 2])]"
  let ?d3 = "[(ascii ''t1.webm'', [9, 1, 2 :: 8 word])]"
  have a0: "map_of ([] :: dir) (?t @ ascii ''_temp.webm'') = None" by simp
  have a1: "map_of ?d1 (?t @ ascii ''_temp.webm'') = Some [1, 2]" by (simp add: ascii_def)
  have a2: "map_of ?d1 (?t @ ascii ''.webm'') = None" by (simp add: ascii_def)
  have a3: "map_of ?d2 (?t @ ascii ''_temp.webm'') = Some [1, 2]" by (simp add: ascii_def)
  have a4: "map_of ?d2 (?t @ ascii ''.webm'') = Some [9]" by (simp add: ascii_def)
  have a5: "mergeAudioFiles ?t ?d2 = (Inr (ascii ''t1.webm''), ?d3)"
    by (simp add: merge_append [OF a3 a4]) (simp add: ascii_def)
  from merge_contract [of "[]" ?t "[]" "[]" "[]" "[]"] a0
  have b0: "mergeAudioFiles ?t [] = (Inl (Error (MERGE_FAILED @ TEMP_MISSING)), [])"
    by blast
  from merge_contract [of ?d1 ?t "[1, 2]" "[]" "[]" "[]"] a1 a2
  have b1: "map_of (snd (mergeAudioFiles ?t ?d1)) (?t @ ascii ''.webm'') = Some [1, 2]"
    by (simp add: ascii_def)
  from merge_contract [of ?d2 ?t "[1, 2]" "[9]" "ascii ''t1.webm''" ?d3] a3 a4 a5
  have b2: "map_of (snd (mergeAudioFiles ?t ?d2)) (?t @ ascii ''.webm'') = Some [9, 1, 2]"
    and b3: "mergeAudioFiles ?t ?d3 = (Inl (Error (MERGE_FAILED @ TEMP_MISSING)), ?d3)"
    by (simp_all add: ascii_def)
  from a0 a1 a2 a4 a5 b0 b1 b2 b3 show ?thesis by blast
qed

section \<open>Properties of the poll loop\<close>

lemma poll_loop_running:
  assumes "\<And>n. attempts < n \<Longrightarrow> n \<le> maxAttempts \<Longrightarrow> still_running (q n)"
    and "attempts \<le> maxAttempts"
  shows "poll_loop q attempts =
           (Inl (Error TRANSCRIBE_TIMEOUT),
            concat (map (\<lambda>n. [Query n, Sleep 5000]) [Suc attempts..<Suc maxAttempts]))"
  using assms
proof (induction q attempts rule: poll_loop.induct)
  case (1 q attempts)
  show ?case
  proof (cases "attempts < maxAttempts")
    case False
    with "1.prems" show ?thesis by (subst poll_loop.simps) simp
  next
    case True
    then have run: "still_running (q (attempts + 1))" using "1.prems" by simp
    then obtain out where out: "q (attempts + 1) = Inr out"
      "task_status out \<noteq> JStr (ascii ''SUCCEEDED'')" "task_status out \<noteq> JStr (ascii ''FAILED'')"
      by (auto simp: still_running_def split: sum.splits)
    have IH: "poll_loop q (attempts + 1) =
           (Inl (Error TRANSCRIBE_TIMEOUT),
            concat (map (\<lambda>n. [Query n, Sleep 5000]) [Suc (attempts + 1)..<Suc maxAttempts]))"
      using "1.IH" [OF True out(1) out(2) out(3)] "1.prems" True by simp
    have "[Suc attempts..<Suc maxAttempts] = Suc attempts # [Suc (attempts + 1)..<Suc maxAttempts]"
      using True by (simp add: upt_conv_Cons)
    then show ?thesis
      using True out IH by (subst poll_loop.simps) simp
  qed
qed

lemma poll_loop_queries:
  "length (filter is_Query (snd (poll_loop q attempts))) \<le> maxAttempts - attempts"
proof (induction q attempts rule: poll_loop.induct)
  case (1 q attempts)
  show ?case
  proof (cases "attempts < maxAttempts")
    case False
    then show ?thesis by (subst poll_loop.simps) simp
  next
    case True
    show ?thesis
    proof (cases "q (attempts + 1)")
      case (Inl e)
      with True show ?thesis by (subst poll_loop.simps) simp
    next
      case (Inr out)
      show ?thesis
      proof (cases "task_status out = JStr (ascii ''SUCCEEDED'') \<or> task_status out = JStr (ascii ''FAILED'')")
        case True
        with \<open>attempts < maxAttempts\<close> Inr show ?thesis
          by (subst poll_loop.simps) auto
      next
        case False
        with "1.IH" [OF True Inr] have "length (filter is_Query (snd (poll_loop q (attempts + 1)))) \<le> maxAttempts - (attempts + 1)"
          by simp
        with False True Inr show ?thesis
          by (subst poll_loop.simps) (auto simp: case_prod_beta)
      qed
    qed
  qed
qed


lemma transcribe_trace: "snd (transcribe sv) = [] \<or> snd (transcribe sv) = snd (poll_loop (poll sv) 0)"
  by (auto simp: transcribe_def split: option.splits sum.splits prod.splits)

lemma client_trace: "snd (audioToTextWithParaformer sv) = snd (transcribe sv)"
  by (auto simp: audioToTextWithParaformer_def split: prod.splits sum.splits)

lemma client_queries: "length (filter is_Query (snd (audioToTextWithParaformer sv))) \<le> 30"
proof -
  have "length (filter is_Query (snd (poll_loop (poll sv) 0))) \<le> 30"
    using poll_loop_queries [of "poll sv" 0] by (simp add: maxAttempts_def)
  with transcribe_trace [of sv] show ?thesis by (auto simp: client_trace)
qed

lemma queries_of_rounds:
  "length (filter is_Query (concat (map (\<lambda>n. [Query n, Sleep 5000]) ns))) = length ns"
  by (induction ns) auto

text \<open>
  C2. When the configuration and the submit are in order and every one of the first 30
  status queries finds the job neither \<^verbatim>\<open>SUCCEEDED\<close> nor \<^verbatim>\<open>FAILED\<close>, the loop
  performs exactly the queries 1 to 30, each followed by a wait of 5000 ms, and then
  throws the timeout error, which \<^verbatim>\<open>audioToTextWithParaformer\<close> rethrows wrapped. Whatever
  the service answers, the function is total and never performs more than 30 queries.
\<close>

theorem poll_timeout:
  assumes "stored_llm_config sv = Some config" and "apiKey config \<noteq> []"
    and "submit sv = Inr task_id" and "truthy task_id"
    and "\<forall>n. 1 \<le> n \<and> n \<le> 30 \<longrightarrow> still_running (poll sv n)"
  shows "poll_loop (poll sv) 0 =
           (Inl (Error TRANSCRIBE_TIMEOUT), concat (map (\<lambda>n. [Query n, Sleep 5000]) [1..<31]))
       \<and> audioToTextWithParaformer sv =
           (Inl (Error (AUDIO_TO_TEXT_FAILED @ TRANSCRIBE_TIMEOUT)),
            concat (map (\<lambda>n. [Query n, Sleep 5000]) [1..<31]))
       \<and> length (filter is_Query (snd (audioToTextWithParaformer sv))) = 30
       \<and> (\<forall>sv'. length (filter is_Query (snd (audioToTextWithParaformer sv'))) \<le> 30)"
proof -
  have p: "poll_loop (poll sv) 0 =
           (Inl (Error TRANSCRIBE_TIMEOUT), concat (map (\<lambda>n. [Query n, Sleep 5000]) [1..<31]))"
    using poll_loop_running [of 0 "poll sv"] assms(5) by (simp add: maxAttempts_def)
  have c: "audioToTextWithParaformer sv =
           (Inl (Error (AUDIO_TO_TEXT_FAILED @ TRANSCRIBE_TIMEOUT)),
            concat (map (\<lambda>n. [Query n, Sleep 5000]) [1..<31]))"
    using assms(1-4) by (simp add: audioToTextWithParaformer_def transcribe_def p)
  have n: "length (filter is_Query (snd (audioToTextWithParaformer sv))) = 30"
    unfolding c snd_conv queries_of_rounds by simp
  from p c n client_queries show ?thesis by blast
qed

theorem poll_timeout_witness:
  "stored_llm_config always_running \<noteq> None
   \<and> still_running (poll always_running 1) \<and> still_running (poll always_running 30)
   \<and> fst (audioToTextWithParaformer always_running) =
        Inl (Error (AUDIO_TO_TEXT_FAILED @ TRANSCRIBE_TIMEOUT))
   \<and> length (filter is_Query (snd (audioToTextWithParaformer always_running))) = 30"
proof -
  have h1: "stored_llm_config always_running =
              Some \<lparr>baseUrl = ascii ''http://llm'', model = ascii ''m'', apiKey = ascii ''k''\<rparr>"
    by (simp add: always_running_def)
  have h2: "apiKey \<lparr>baseUrl = ascii ''http://llm'', model = ascii ''m'', apiKey = ascii ''k''\<rparr> \<noteq> []"
    by (simp add: ascii_def)
  have h3: "submit always_running = Inr (JStr (ascii ''job-1''))"
    by (simp add: always_running_def)
  have h4: "truthy (JStr (ascii ''job-1''))" by (simp add: ascii_def)
  have h5: "\<forall>n. 1 \<le> n \<and> n \<le> 30 \<longrightarrow> still_running (poll always_running n)"
    by (simp add: always_running_def still_running_def ascii_def)
  note r = poll_timeout [OF h1 h2 h3 h4 h5]
  from r have a: "fst (audioToTextWithParaformer always_running) =
        Inl (Error (AUDIO_TO_TEXT_FAILED @ TRANSCRIBE_TIMEOUT))" by simp
  from r have b: "length (filter is_Query (snd (audioToTextWithParaformer always_running))) = 30"
    by blast
  from h1 have c: "stored_llm_config always_running \<noteq> None" by simp
  from h5 have d: "still_running (poll always_running 1) \<and> still_running (poll always_running 30)"
    by simp
  from a b c d show ?thesis by blast
qed

section \<open>Properties of the extraction\<close>

lemma trim_decomp:
  "\<exists>pre post. s = pre @ trim s @ post \<and> (\<forall>c\<in>set pre. is_space c) \<and> (\<forall>c\<in>set post. is_space c)"
proof -
  let ?r = "dropWhile is_space s"
  have 1: "s = takeWhile is_space s @ ?r" by simp
  have 2: "?r = trim s @ rev (takeWhile is_space (rev ?r))"
    by (metis rev_append rev_rev_ident takeWhile_dropWhile_id trim_def)
  have 3: "\<forall>c\<in>set (takeWhile is_space s). is_space c" by (auto dest: set_takeWhileD)
  have 4: "\<forall>c\<in>set (rev (takeWhile is_space (rev ?r))). is_space c" by (auto dest: set_takeWhileD)
  from 1 2 have "s = takeWhile is_space s @ trim s @ rev (takeWhile is_space (rev ?r))" by simp
  with 3 4 show ?thesis by blast
qed

lemma trim_ends:
  assumes "trim s \<noteq> []"
  shows "\<not> is_space (hd (trim s))" and "\<not> is_space (last (trim s))"
proof -
  let ?r = "dropWhile is_space s"
  let ?d = "dropWhile is_space (rev ?r)"
  from assms have d: "?d \<noteq> []" by (simp add: trim_def)
  then have r: "?r \<noteq> []" by (metis dropWhile.simps(1) rev.simps(1))
  have "last (trim s) = hd ?d" using d by (simp add: trim_def last_rev)
  then show "\<not> is_space (last (trim s))" using d hd_dropWhile [of is_space "rev ?r"] by simp
  have "hd (trim s) = last ?d" using d by (simp add: trim_def hd_rev)
  also have "\<dots> = last (rev ?r)"
    using d by (metis append_is_Nil_conv last_appendR takeWhile_dropWhile_id)
  also have "\<dots> = hd ?r" using r by (simp add: last_rev)
  finally show "\<not> is_space (hd (trim s))" using r hd_dropWhile [of is_space s] by simp
qed

lemma NO_TEXT_nonempty: "NO_TEXT \<noteq> []"
  by (simp add: NO_TEXT_def)

lemma finish_Inr:
  assumes "finish v = Inr s"
  shows "\<exists>acc. v = JStr acc \<and> s = (if trim acc = [] then NO_TEXT else trim acc)"
  using assms by (cases v) (auto simp: finish_def)

lemma client_Inr:
  assumes "fst (audioToTextWithParaformer sv) = Inr s"
  shows "\<exists>out v. fst (poll_loop (poll sv) 0) = Inr out \<and> accumulate (fetch sv) out = Inr v
                 \<and> finish v = Inr s"
  using assms
  by (auto simp: audioToTextWithParaformer_def transcribe_def
           split: option.splits sum.splits prod.splits if_splits)

lemma trimmed_of_trim: "trimmed_of acc (trim acc)"
  unfolding trimmed_of_def using trim_decomp [of acc] trim_ends [of acc] by blast

lemma client_returns:
  assumes "stored_llm_config sv = Some config" and "apiKey config \<noteq> []"
    and "submit sv = Inr task_id" and "truthy task_id"
    and "fst (poll_loop (poll sv) 0) = Inr out"
    and "accumulate (fetch sv) out = Inr (JStr acc)"
  shows "fst (audioToTextWithParaformer sv) = Inr (if trim acc = [] then NO_TEXT else trim acc)"
  using assms
  by (cases "poll_loop (poll sv) 0")
     (simp add: audioToTextWithParaformer_def transcribe_def finish_def)

text \<open>
  C6. Whenever \<^verbatim>\<open>audioToTextWithParaformer\<close> returns a string, the job was polled to
  \<^verbatim>\<open>SUCCEEDED\<close>, the extraction accumulated a string \<open>acc\<close>, and the returned string is
  \<open>trim acc\<close> (\<open>acc\<close> with nothing but white space cut off at both ends), or the literal
  fallback when \<open>trim acc\<close> is empty; it is never empty. Conversely, when the
  configuration and the submit are in order, the job succeeds and the extraction
  accumulates a string, the function does return that value.
\<close>

theorem result_contract:
  "(fst (audioToTextWithParaformer sv) = Inr s \<longrightarrow>
      s \<noteq> []
      \<and> (\<exists>out acc. fst (poll_loop (poll sv) 0) = Inr out
             \<and> accumulate (fetch sv) out = Inr (JStr acc)
             \<and> trimmed_of acc (trim acc)
             \<and> s = (if trim acc = [] then NO_TEXT else trim acc)))
   \<and> (stored_llm_config sv = Some config \<and> apiKey config \<noteq> [] \<and> submit sv = Inr task_id
        \<and> truthy task_id \<and> fst (poll_loop (poll sv) 0) = Inr out'
        \<and> accumulate (fetch sv) out' = Inr (JStr acc') \<longrightarrow>
        fst (audioToTextWithParaformer sv) = Inr (if trim acc' = [] then NO_TEXT else trim acc'))"
proof (intro conjI impI)
  assume r: "fst (audioToTextWithParaformer sv) = Inr s"
  from client_Inr [OF r] obtain out v where
    o: "fst (poll_loop (poll sv) 0) = Inr out" "accumulate (fetch sv) out = Inr v" "finish v = Inr s"
    by blast
  from finish_Inr [OF o(3)] obtain acc where
    a: "v = JStr acc" "s = (if trim acc = [] then NO_TEXT else trim acc)" by blast
  from a(2) show "s \<noteq> []" by (simp add: NO_TEXT_nonempty)
  from o a trimmed_of_trim [of acc]
  show "\<exists>out acc. fst (poll_loop (poll sv) 0) = Inr out
             \<and> accumulate (fetch sv) out = Inr (JStr acc)
             \<and> trimmed_of acc (trim acc)
             \<and> s = (if trim acc = [] then NO_TEXT else trim acc)" by blast
next
  assume "stored_llm_config sv = Some config \<and> apiKey config \<noteq> [] \<and> submit sv = Inr task_id
        \<and> truthy task_id \<and> fst (poll_loop (poll sv) 0) = Inr out'
        \<and> accumulate (fetch sv) out' = Inr (JStr acc')"
  then show "fst (audioToTextWithParaformer sv) = Inr (if trim acc' = [] then NO_TEXT else trim acc')"
    using client_returns [of sv config task_id out' acc'] by blast
qed

theorem result_contract_witness:
  "fst (audioToTextWithParaformer padded_text) = Inr (ascii ''hi'') \<and> ascii ''hi'' \<noteq> []
   \<and> (\<exists>acc. trimmed_of acc (ascii ''hi''))
   \<and> fst (audioToTextWithParaformer blank_text) = Inr NO_TEXT"
proof -
  let ?cfg = "\<lparr>baseUrl = ascii ''http://llm'', model = ascii ''m'', apiKey = ascii ''k''\<rparr>"
  let ?out = "\<lparr>task_status = JStr (ascii ''SUCCEEDED''), output_message = JUndefined,
                results = Some [JObj [(ascii ''text'', JStr (ascii '' hi ''))]]\<rparr>"
  let ?out' = "\<lparr>task_status = JStr (ascii ''SUCCEEDED''), output_message = JUndefined,
                results = Some [JObj [(ascii ''text'', JStr (ascii ''  ''))]]\<rparr>"
  have c: "stored_llm_config padded_text = Some ?cfg" "stored_llm_config blank_text = Some ?cfg"
    by (simp_all add: padded_text_def blank_text_def)
  have k: "apiKey ?cfg \<noteq> []" by (simp add: ascii_def)
  have s: "submit padded_text = Inr (JStr (ascii ''job-1''))"
    "submit blank_text = Inr (JStr (ascii ''job-1''))"
    by (simp_all add: padded_text_def blank_text_def)
  have t: "truthy (JStr (ascii ''job-1''))" by (simp add: ascii_def)
  have p: "fst (poll_loop (poll padded_text) 0) = Inr ?out"
    by (subst poll_loop.simps) (simp add: padded_text_def maxAttempts_def)
  have p': "fst (poll_loop (poll blank_text) 0) = Inr ?out'"
    by (subst poll_loop.simps) (simp add: blank_text_def maxAttempts_def)
  have a: "accumulate (fetch padded_text) ?out = Inr (JStr (ascii '' hi '' @ [0x0A]))"
    by (simp add: accumulate_def extract_item_def fallback_def ascii_def)
  have a': "accumulate (fetch blank_text) ?out' = Inr (JStr (ascii ''  '' @ [0x0A]))"
    by (simp add: accumulate_def extract_item_def fallback_def ascii_def)
  have n: "trim (ascii '' hi '' @ [0x0A]) = ascii ''hi''"
    by (simp add: trim_def is_space_def ascii_def)
  have n': "trim (ascii ''  '' @ [0x0A]) = []"
    by (simp add: trim_def is_space_def ascii_def)
  have ne: "ascii ''hi'' \<noteq> []" by (simp add: ascii_def)
  from result_contract [of padded_text "ascii ''hi''" ?cfg "JStr (ascii ''job-1'')" ?out
      "ascii '' hi '' @ [0x0A]", THEN conjunct2] c(1) k s(1) t p a
  have h: "fst (audioToTextWithParaformer padded_text) = Inr (ascii ''hi'')"
    by (simp only: n ne if_False simp_thms)
  from result_contract [of blank_text "[]" ?cfg "JStr (ascii ''job-1'')" ?out'
      "ascii ''  '' @ [0x0A]", THEN conjunct2] c(2) k s(2) t p' a'
  have b: "fst (audioToTextWithParaformer blank_text) = Inr NO_TEXT"
    by (simp only: n' if_True simp_thms)
  from result_contract [of padded_text "ascii ''hi''", THEN conjunct1] h
  obtain acc where t: "trimmed_of acc (trim acc)"
    "ascii ''hi'' = (if trim acc = [] then NO_TEXT else trim acc)"
    by blast
  have "NO_TEXT \<noteq> ascii ''hi''" by (simp add: NO_TEXT_def ascii_def)
  with t(2) have "trim acc = ascii ''hi''" by metis
  with t(1) have "trimmed_of acc (ascii ''hi'')" by simp
  then have e: "\<exists>acc. trimmed_of acc (ascii ''hi'')" ..
  from h ne e b show ?thesis by (intro conjI)
qed

lemma field_names_differ: "ascii ''text'' \<noteq> ascii ''transcription_url''"
  by (simp add: ascii_def)

lemma extract_item_url:
  assumes "map_of kvs (ascii ''transcription_url'') = Some u" and "truthy u"
  shows "extract_item f acc (JObj kvs) =
           Inr (acc @ (case (case f u of Inl e \<Rightarrow> Inl e | Inr d \<Rightarrow> from_transcription d) of
                         Inl e \<Rightarrow> FETCH_RESULT_FAILED @ message e
                       | Inr s \<Rightarrow> s))"
  using assms by (simp add: extract_item_def split: sum.splits)

lemma fallback_nonempty:
  assumes "t \<noteq> []"
  shows "fallback rs t = Inr (JStr t)"
  using assms by (simp add: fallback_def split: list.splits)

lemma fallback_direct_text:
  assumes "get first ''sentence'' = Inr sn" and "\<not> truthy sn"
    and "get first ''sentences'' = Inr ss" and "\<not> truthy ss"
    and "get first ''text'' = Inr d" and "truthy d"
  shows "fallback (first # rest) [] = Inr d"
  using assms by (simp add: fallback_def)

lemma accumulate_results:
  assumes "results out = Some rs"
  shows "accumulate f out = (case extract_loop f [] rs of Inl e \<Rightarrow> Inl e | Inr t \<Rightarrow> fallback rs t)"
  using assms by (simp add: accumulate_def)

lemma extract_loop_append:
  "extract_loop f acc (xs @ ys) =
     (case extract_loop f acc xs of Inl e \<Rightarrow> Inl e | Inr t \<Rightarrow> extract_loop f t ys)"
  by (induction xs arbitrary: acc) (simp_all split: sum.splits)

lemma fallback_first: "xs \<noteq> [] \<Longrightarrow> fallback (xs @ ys) t = fallback (xs @ zs) t"
  by (cases xs) (simp_all add: fallback_def)

text \<open>
  C5 (amended). An entry that carries a truthy \<^verbatim>\<open>transcription_url\<close> is handled by the
  secondary-URL path alone in the loop over the entries: what it appends is what the
  fetched body decodes to (or the message of the failed fetch), and changing or adding its
  direct \<^verbatim>\<open>text\<close> field changes nothing there. When the loop leaves a non-empty text,
  that text is the accumulated text. When the loop leaves the text empty and the first
  entry is such an entry without a truthy \<^verbatim>\<open>sentence\<close> or \<^verbatim>\<open>sentences\<close>, the fallback
  assigns the truthy direct \<^verbatim>\<open>text\<close> of that first entry. The fallback reads the first
  entry only: the direct \<^verbatim>\<open>text\<close> of such an entry behind the first never changes the
  accumulated text. In both cases the client, with its configuration and the submit in
  order, returns the accumulated string trimmed, or the fallback literal when nothing is
  left of it.
\<close>

theorem url_entry_priority:
  assumes "map_of kvs (ascii ''transcription_url'') = Some u" and "truthy u"
  shows "extract_item f acc (JObj kvs) =
           Inr (acc @ (case (case f u of Inl e \<Rightarrow> Inl e | Inr d \<Rightarrow> from_transcription d) of
                         Inl e \<Rightarrow> FETCH_RESULT_FAILED @ message e
                       | Inr s \<Rightarrow> s))
       \<and> extract_item f acc (JObj (AList.update (ascii ''text'') v kvs)) =
           extract_item f acc (JObj kvs)
       \<and> (extract_loop f [] rs = Inr t \<and> t \<noteq> [] \<longrightarrow>
            accumulate f \<lparr>task_status = st, output_message = m, results = Some rs\<rparr> = Inr (JStr t))
       \<and> (extract_loop f [] (JObj kvs # rest) = Inr []
            \<and> get (JObj kvs) ''sentence'' = Inr sn \<and> \<not> truthy sn
            \<and> get (JObj kvs) ''sentences'' = Inr ss \<and> \<not> truthy ss
            \<and> get (JObj kvs) ''text'' = Inr d \<and> truthy d \<longrightarrow>
            accumulate f \<lparr>task_status = st, output_message = m, results = Some (JObj kvs # rest)\<rparr>
              = Inr d)
       \<and> (before \<noteq> [] \<longrightarrow>
            accumulate f \<lparr>task_status = st, output_message = m,
                          results = Some (before @ JObj (AList.update (ascii ''text'') v kvs) # behind)\<rparr>
              = accumulate f \<lparr>task_status = st, output_message = m,
                              results = Some (before @ JObj kvs # behind)\<rparr>)
       \<and> (stored_llm_config sv = Some config \<and> apiKey config \<noteq> [] \<and> submit sv = Inr task_id
            \<and> truthy task_id \<and> fst (poll_loop (poll sv) 0) = Inr out \<and> results out = Some rs'
            \<and> extract_loop (fetch sv) [] rs' = Inr t' \<and> t' \<noteq> [] \<longrightarrow>
            fst (audioToTextWithParaformer sv) = Inr (if trim t' = [] then NO_TEXT else trim t'))
       \<and> (stored_llm_config sv = Some config \<and> apiKey config \<noteq> [] \<and> submit sv = Inr task_id
            \<and> truthy task_id \<and> fst (poll_loop (poll sv) 0) = Inr out
            \<and> results out = Some (JObj kvs # rest')
            \<and> extract_loop (fetch sv) [] (JObj kvs # rest') = Inr []
            \<and> get (JObj kvs) ''sentence'' = Inr sn' \<and> \<not> truthy sn'
            \<and> get (JObj kvs) ''sentences'' = Inr ss' \<and> \<not> truthy ss'
            \<and> get (JObj kvs) ''text'' = Inr (JStr d') \<and> d' \<noteq> [] \<longrightarrow>
            fst (audioToTextWithParaformer sv) = Inr (if trim d' = [] then NO_TEXT else trim d'))"
proof -
  have u': "map_of (AList.update (ascii ''text'') v kvs) (ascii ''transcription_url'') = Some u"
    using assms(1) field_names_differ by (simp add: update_conv')
  have 1: "extract_item f acc (JObj (AList.update (ascii ''text'') v kvs)) =
           extract_item f acc (JObj kvs)" for acc
    by (simp only: extract_item_url [OF u' assms(2)] extract_item_url [OF assms])
  have 2: "extract_loop f [] rs = Inr t \<and> t \<noteq> [] \<longrightarrow>
            accumulate f \<lparr>task_status = st, output_message = m, results = Some rs\<rparr> = Inr (JStr t)"
    by (simp add: accumulate_def fallback_nonempty)
  have 3: "extract_loop f [] (JObj kvs # rest) = Inr []
            \<and> get (JObj kvs) ''sentence'' = Inr sn \<and> \<not> truthy sn
            \<and> get (JObj kvs) ''sentences'' = Inr ss \<and> \<not> truthy ss
            \<and> get (JObj kvs) ''text'' = Inr d \<and> truthy d \<longrightarrow>
            accumulate f \<lparr>task_status = st, output_message = m, results = Some (JObj kvs # rest)\<rparr>
              = Inr d"
  proof (intro impI; elim conjE)
    assume l: "extract_loop f [] (JObj kvs # rest) = Inr []"
      and g: "get (JObj kvs) ''sentence'' = Inr sn" "\<not> truthy sn"
        "get (JObj kvs) ''sentences'' = Inr ss" "\<not> truthy ss"
        "get (JObj kvs) ''text'' = Inr d" "truthy d"
    show "accumulate f \<lparr>task_status = st, output_message = m, results = Some (JObj kvs # rest)\<rparr>
              = Inr d"
      by (simp only: accumulate_results [of _ "JObj kvs # rest"] query_output.simps l sum.case
          fallback_direct_text [OF g])
  qed
  have 4: "before \<noteq> [] \<longrightarrow>
            accumulate f \<lparr>task_status = st, output_message = m,
                          results = Some (before @ JObj (AList.update (ascii ''text'') v kvs) # behind)\<rparr>
              = accumulate f \<lparr>task_status = st, output_message = m,
                              results = Some (before @ JObj kvs # behind)\<rparr>"
  proof
    assume b: "before \<noteq> []"
    have "extract_loop f [] (before @ JObj (AList.update (ascii ''text'') v kvs) # behind)
            = extract_loop f [] (before @ JObj kvs # behind)"
      by (simp add: extract_loop_append 1 split: sum.splits)
    moreover have "fallback (before @ JObj (AList.update (ascii ''text'') v kvs) # behind) x
            = fallback (before @ JObj kvs # behind) x" for x
      using b by (rule fallback_first)
    ultimately show "accumulate f \<lparr>task_status = st, output_message = m,
                          results = Some (before @ JObj (AList.update (ascii ''text'') v kvs) # behind)\<rparr>
              = accumulate f \<lparr>task_status = st, output_message = m,
                              results = Some (before @ JObj kvs # behind)\<rparr>"
      by (simp add: accumulate_def split: sum.splits)
  qed
  have 5: "stored_llm_config sv = Some config \<and> apiKey config \<noteq> [] \<and> submit sv = Inr task_id
            \<and> truthy task_id \<and> fst (poll_loop (poll sv) 0) = Inr out \<and> results out = Some rs'
            \<and> extract_loop (fetch sv) [] rs' = Inr t' \<and> t' \<noteq> [] \<longrightarrow>
            fst (audioToTextWithParaformer sv) = Inr (if trim t' = [] then NO_TEXT else trim t')"
  proof (intro impI; elim conjE)
    assume c: "stored_llm_config sv = Some config" "apiKey config \<noteq> []" "submit sv = Inr task_id"
        "truthy task_id" "fst (poll_loop (poll sv) 0) = Inr out"
      and r: "results out = Some rs'" and l: "extract_loop (fetch sv) [] rs' = Inr t'"
      and n: "t' \<noteq> []"
    have "accumulate (fetch sv) out = Inr (JStr t')"
      by (simp add: accumulate_results [OF r] l fallback_nonempty [OF n])
    with c show "fst (audioToTextWithParaformer sv) = Inr (if trim t' = [] then NO_TEXT else trim t')"
      by (rule client_returns)
  qed
  have 6: "stored_llm_config sv = Some config \<and> apiKey config \<noteq> [] \<and> submit sv = Inr task_id
            \<and> truthy task_id \<and> fst (poll_loop (poll sv) 0) = Inr out
            \<and> results out = Some (JObj kvs # rest')
            \<and> extract_loop (fetch sv) [] (JObj kvs # rest') = Inr []
            \<and> get (JObj kvs) ''sentence'' = Inr sn' \<and> \<not> truthy sn'
            \<and> get (JObj kvs) ''sentences'' = Inr ss' \<and> \<not> truthy ss'
            \<and> get (JObj kvs) ''text'' = Inr (JStr d') \<and> d' \<noteq> [] \<longrightarrow>
            fst (audioToTextWithParaformer sv) = Inr (if trim d' = [] then NO_TEXT else trim d')"
  proof (intro impI; elim conjE)
    assume c: "stored_llm_config sv = Some config" "apiKey config \<noteq> []" "submit sv = Inr task_id"
        "truthy task_id" "fst (poll_loop (poll sv) 0) = Inr out"
      and r: "results out = Some (JObj kvs # rest')"
      and l: "extract_loop (fetch sv) [] (JObj kvs # rest') = Inr []"
      and g: "get (JObj kvs) ''sentence'' = Inr sn'" "\<not> truthy sn'"
        "get (JObj kvs) ''sentences'' = Inr ss'" "\<not> truthy ss'"
        "get (JObj kvs) ''text'' = Inr (JStr d')"
      and n: "d' \<noteq> []"
    from n have "truthy (JStr d')" by simp
    note f = fallback_direct_text [OF g this]
    have "accumulate (fetch sv) out = Inr (JStr d')"
      by (simp only: accumulate_results [OF r] l sum.case f)
    with c show "fst (audioToTextWithParaformer sv) = Inr (if trim d' = [] then NO_TEXT else trim d')"
      by (rule client_returns)
  qed
  from extract_item_url [OF assms] 1 2 3 4 5 6 show ?thesis by (intro conjI)
qed

lemma transcript_body:
  "from_transcription
     (JObj [(ascii ''transcripts'', JArr [JObj [(ascii ''text'', JStr (ascii ''from url''))]])])
   = Inr (ascii ''from url'')"
  by (simp add: from_transcription_def map_join_def text_or_empty_def ascii_def)

lemma empty_body: "from_transcription (JObj []) = Inr []"
  by (simp add: from_transcription_def)

theorem url_entry_priority_witness:
  "truthy (JStr (ascii ''https://oss/result.json''))
   \<and> extract_item fetch_transcript [] url_and_text = Inr (ascii ''from url'')
   \<and> accumulate fetch_transcript (succeeded_with [url_and_text]) = Inr (JStr (ascii ''from url''))
   \<and> extract_loop fetch_empty_object [] [url_and_text] = Inr []
   \<and> accumulate fetch_empty_object (succeeded_with [url_and_text]) = Inr (JStr (ascii ''hello''))
   \<and> accumulate fetch_transcript (succeeded_with [url_only, url_and_text])
       = accumulate fetch_transcript (succeeded_with [url_only, url_only])
   \<and> fst (audioToTextWithParaformer url_service) = Inr (ascii ''from url'')
   \<and> fst (audioToTextWithParaformer empty_body_service) = Inr (ascii ''hello'')"
proof -
  let ?kvs = "[(ascii ''transcription_url'', JStr (ascii ''https://oss/result.json'')),
               (ascii ''text'', JStr (ascii ''hello''))]"
  let ?only = "[(ascii ''transcription_url'', JStr (ascii ''https://oss/result.json''))]"
  let ?u = "JStr (ascii ''https://oss/result.json'')"
  let ?cfg = "\<lparr>baseUrl = ascii ''http://llm'', model = ascii ''m'', apiKey = ascii ''k''\<rparr>"
  let ?st = "JStr (ascii ''SUCCEEDED'')"
  have h1: "map_of ?kvs (ascii ''transcription_url'') = Some ?u" by simp
  have h0: "map_of ?only (ascii ''transcription_url'') = Some ?u" by simp
  have h2: "truthy ?u" by (simp add: ascii_def)
  note r = url_entry_priority [OF h1 h2]
  note r0 = url_entry_priority [OF h0 h2]
  have e: "extract_item fetch_transcript [] url_and_text = Inr (ascii ''from url'')"
    using r [where f = fetch_transcript and acc = "[]", THEN conjunct1]
    by (simp add: url_and_text_def fetch_transcript_def transcript_body)
  have n: "ascii ''from url'' \<noteq> []" by (simp add: ascii_def)
  from e have l: "extract_loop fetch_transcript [] [url_and_text] = Inr (ascii ''from url'')"
    by simp
  have a: "accumulate fetch_transcript (succeeded_with [url_and_text])
             = Inr (JStr (ascii ''from url''))"
    using r [where f = fetch_transcript and rs = "[url_and_text]" and t = "ascii ''from url''"
          and st = ?st and m = JUndefined, THEN conjunct2, THEN conjunct2, THEN conjunct1] l n
    by (simp add: succeeded_with_def)
  have e': "extract_item fetch_empty_object [] url_and_text = Inr []"
    using r [where f = fetch_empty_object and acc = "[]", THEN conjunct1]
    by (simp add: url_and_text_def fetch_empty_object_def empty_body)
  then have l': "extract_loop fetch_empty_object [] [url_and_text] = Inr []" by simp
  have g: "get (JObj ?kvs) ''sentence'' = Inr JUndefined" "\<not> truthy JUndefined"
    "get (JObj ?kvs) ''sentences'' = Inr JUndefined"
    "get (JObj ?kvs) ''text'' = Inr (JStr (ascii ''hello''))"
    by (simp_all add: ascii_def)
  have t: "truthy (JStr (ascii ''hello''))" and t': "ascii ''hello'' \<noteq> []"
    by (simp_all add: ascii_def)
  have b: "accumulate fetch_empty_object (succeeded_with [url_and_text])
             = Inr (JStr (ascii ''hello''))"
    using r [where f = fetch_empty_object and rest = "[]" and sn = JUndefined and ss = JUndefined
          and d = "JStr (ascii ''hello'')" and st = ?st and m = JUndefined,
        THEN conjunct2, THEN conjunct2, THEN conjunct2, THEN conjunct1]
      l' g t
    by (simp add: succeeded_with_def url_and_text_def)
  have c: "accumulate fetch_transcript (succeeded_with [url_only, url_and_text])
       = accumulate fetch_transcript (succeeded_with [url_only, url_only])"
    using r0 [where before = "[url_only]" and f = fetch_transcript and st = ?st and m = JUndefined
          and v = "JStr (ascii ''hello'')" and behind = "[]",
        THEN conjunct2, THEN conjunct2, THEN conjunct2, THEN conjunct2, THEN conjunct1]
    by (simp add: succeeded_with_def url_and_text_def url_only_def field_names_differ [THEN not_sym])
  have s: "stored_llm_config url_service = Some ?cfg" "apiKey ?cfg \<noteq> []"
    "submit url_service = Inr (JStr (ascii ''job-1''))" "truthy (JStr (ascii ''job-1''))"
    "stored_llm_config empty_body_service = Some ?cfg"
    "submit empty_body_service = Inr (JStr (ascii ''job-1''))"
    by (simp_all add: url_service_def empty_body_service_def padded_text_def ascii_def)
  have p: "fst (poll_loop (poll url_service) 0) = Inr (succeeded_with [url_and_text])"
    by (subst poll_loop.simps) (simp add: url_service_def maxAttempts_def succeeded_with_def)
  have p': "fst (poll_loop (poll empty_body_service) 0) = Inr (succeeded_with [url_and_text])"
    by (subst poll_loop.simps)
       (simp add: empty_body_service_def url_service_def maxAttempts_def succeeded_with_def)
  have rs: "results (succeeded_with [url_and_text]) = Some [url_and_text]"
    "results (succeeded_with [url_and_text]) = Some [JObj ?kvs]"
    by (simp_all add: succeeded_with_def url_and_text_def)
  have f: "fetch url_service = fetch_transcript" "fetch empty_body_service = fetch_empty_object"
    by (simp_all add: url_service_def empty_body_service_def)
  have tr: "trim (ascii ''from url'') = ascii ''from url''" "trim (ascii ''hello'') = ascii ''hello''"
    by (simp_all add: trim_def is_space_def ascii_def)
  have d: "fst (audioToTextWithParaformer url_service) = Inr (ascii ''from url'')"
    using r [where sv = url_service and config = ?cfg and task_id = "JStr (ascii ''job-1'')"
          and out = "succeeded_with [url_and_text]" and rs' = "[url_and_text]"
          and t' = "ascii ''from url''",
        THEN conjunct2, THEN conjunct2, THEN conjunct2, THEN conjunct2, THEN conjunct2,
        THEN conjunct1]
      s(1-4) p rs(1) l n
    by (simp add: f tr)
  have l'': "extract_loop fetch_empty_object [] [JObj ?kvs] = Inr []"
    using l' by (simp add: url_and_text_def)
  have d': "fst (audioToTextWithParaformer empty_body_service) = Inr (ascii ''hello'')"
    using r [where sv = empty_body_service and config = ?cfg and task_id = "JStr (ascii ''job-1'')"
          and out = "succeeded_with [url_and_text]" and rest' = "[]" and sn' = JUndefined
          and ss' = JUndefined and d' = "ascii ''hello''",
        THEN conjunct2, THEN conjunct2, THEN conjunct2, THEN conjunct2, THEN conjunct2,
        THEN conjunct2]
      s(5,2,6,4) p' rs(2) l'' g t'
    by (simp add: f tr)
  from h2 e a l' b c d d' show ?thesis by (intro conjI)
qed

text \<open>
  The claim as stated fails: with a body behind the URL that decodes to nothing, the
  result of the extraction is the direct \<^verbatim>\<open>text\<close> of the entry, and it differs from the
  result for the same entry without that field.
\<close>

theorem direct_text_used_counterexample:
  "accumulate fetch_empty_object (succeeded_with [url_and_text]) = Inr (JStr (ascii ''hello''))
   \<and> accumulate fetch_empty_object (succeeded_with [url_only]) = Inr (JStr [])"
  by (simp add: accumulate_def succeeded_with_def url_and_text_def url_only_def
      fetch_empty_object_def extract_item_def from_transcription_def fallback_def ascii_def)

section \<open>Properties of the object store client\<close>

lemma create_fresh:
  "\<not> (ossClientInitialized st \<and> ossClientInstance st \<noteq> None) \<Longrightarrow>
     createOSSClient env st = createOSSClient env oss_initial"
  by (auto simp: createOSSClient_def oss_initial_def)

lemma create_Some:
  assumes "createOSSClient env st = (Some c, st')"
  shows "ossClientInitialized st' \<and> ossClientInstance st' = Some c"
  using assms by (auto simp: createOSSClient_def Let_def split: if_splits)

lemma create_None:
  assumes "createOSSClient env st = (None, st')"
  shows "st' = \<lparr>ossClientInstance = None, ossClientInitialized = True\<rparr>"
  using assms by (auto simp: createOSSClient_def Let_def split: if_splits)

text \<open>
  C7 (amended). After an \<^verbatim>\<open>acquire()\<close> that yields a connected client, that client is
  cached and every later \<^verbatim>\<open>acquire()\<close> returns it whatever the configuration has become.
  After an \<^verbatim>\<open>acquire()\<close> that yields the unavailable value nothing is reused: the next
  \<^verbatim>\<open>acquire()\<close> resolves the configuration again, as a fresh process would. After
  \<^verbatim>\<open>reset()\<close> the next \<^verbatim>\<open>acquire()\<close> resolves the configuration from scratch.
\<close>

theorem client_cache:
  "(createOSSClient env st = (Some c, st') \<longrightarrow>
      (\<forall>env'. createOSSClient env' st' = (Some c, st')))
   \<and> (createOSSClient env st = (None, st') \<longrightarrow>
        (\<forall>env'. createOSSClient env' st' = createOSSClient env' oss_initial))
   \<and> (\<forall>env'. createOSSClient env' (resetOSSClient st) = createOSSClient env' oss_initial)
   \<and> fst (createOSSClient env oss_initial) =
        (if incomplete (resolve_config env) \<or> new_OSS_throws env (resolve_config env) then None
         else Some (Client (resolve_config env)))"
proof (intro conjI impI allI)
  fix env'
  assume "createOSSClient env st = (Some c, st')"
  from create_Some [OF this] show "createOSSClient env' st' = (Some c, st')"
    by (simp add: createOSSClient_def)
next
  fix env'
  assume "createOSSClient env st = (None, st')"
  from create_None [OF this] show "createOSSClient env' st' = createOSSClient env' oss_initial"
    by (simp add: create_fresh)
next
  fix env'
  show "createOSSClient env' (resetOSSClient st) = createOSSClient env' oss_initial"
    by (simp add: create_fresh resetOSSClient_def)
next
  show "fst (createOSSClient env oss_initial) =
        (if incomplete (resolve_config env) \<or> new_OSS_throws env (resolve_config env) then None
         else Some (Client (resolve_config env)))"
    by (simp add: createOSSClient_def oss_initial_def Let_def)
qed

lemma resolve_unconfigured: "incomplete (resolve_config unconfigured)"
  by (simp add: resolve_config_def unconfigured_def incomplete_def is_set_def)

lemma create_unconfigured:
  "createOSSClient unconfigured oss_initial =
     (None, \<lparr>ossClientInstance = None, ossClientInitialized = True\<rparr>)"
  by (simp add: createOSSClient_def oss_initial_def resolve_unconfigured Let_def)

lemma resolve_configured:
  "resolve_config configured =
     \<lparr>region = Some (ascii ''oss-cn-hangzhou''), accessKeyId = Some (ascii ''id''),
      accessKeySecret = Some (ascii ''secret''), bucket = Some (ascii ''bkt'')\<rparr>"
  by (simp add: resolve_config_def configured_def unconfigured_def stored_document_def
      incomplete_def is_set_def or_else_def ascii_def)

lemma create_configured:
  "\<not> (ossClientInitialized st \<and> ossClientInstance st \<noteq> None) \<Longrightarrow>
   createOSSClient configured st =
     (Some stored_client, \<lparr>ossClientInstance = Some stored_client, ossClientInitialized = True\<rparr>)"
  by (simp add: createOSSClient_def resolve_configured Let_def stored_client_def)
     (simp add: incomplete_def is_set_def ascii_def configured_def unconfigured_def)

text \<open>
  The claim as stated fails for the unavailable value: a first \<^verbatim>\<open>acquire()\<close> with nothing
  configured yields it, and a second one, after the configuration document was stored
  and with no \<^verbatim>\<open>reset()\<close> in between, yields a client.
\<close>

theorem unavailable_not_cached_counterexample:
  "fst (createOSSClient unconfigured oss_initial) = None
   \<and> fst (createOSSClient configured (snd (createOSSClient unconfigured oss_initial)))
       = Some stored_client"
  by (simp add: create_unconfigured create_configured)

theorem client_cache_witness:
  "createOSSClient configured oss_initial =
     (Some stored_client, \<lparr>ossClientInstance = Some stored_client, ossClientInitialized = True\<rparr>)
   \<and> createOSSClient unconfigured
        \<lparr>ossClientInstance = Some stored_client, ossClientInitialized = True\<rparr> =
     (Some stored_client, \<lparr>ossClientInstance = Some stored_client, ossClientInitialized = True\<rparr>)
   \<and> createOSSClient unconfigured oss_initial =
       (None, \<lparr>ossClientInstance = None, ossClientInitialized = True\<rparr>)
   \<and> createOSSClient configured \<lparr>ossClientInstance = None, ossClientInitialized = True\<rparr> =
       createOSSClient configured oss_initial"
proof -
  let ?s = "\<lparr>ossClientInstance = Some stored_client, ossClientInitialized = True\<rparr>"
  let ?n = "\<lparr>ossClientInstance = None, ossClientInitialized = True\<rparr>"
  have a: "createOSSClient configured oss_initial = (Some stored_client, ?s)"
    by (simp add: create_configured oss_initial_def)
  have b: "createOSSClient unconfigured oss_initial = (None, ?n)"
    by (rule create_unconfigured)
  from client_cache [of configured oss_initial stored_client ?s] a
  have c: "createOSSClient unconfigured ?s = (Some stored_client, ?s)" by blast
  from client_cache [of unconfigured oss_initial stored_client ?n] b
  have d: "createOSSClient configured ?n = createOSSClient configured oss_initial" by blast
  from a b c d show ?thesis by blast
qed

lemma upload_audio_file_never_checks:
  assumes "map_of (audio w) f = Some data"
  shows "fst (upload_audio_file env (Some f) now w) =
           Response 500 (ErrorBody (OSS_UPLOAD_FAILED @ message (not_a_function ''put'')))"
  using assms
  by (simp add: upload_audio_file_def fs_access_def client_put_def Let_def split: prod.splits)

lemma testOSSConnection_false: "fst (testOSSConnection env st) = False"
  by (simp add: testOSSConnection_def client_list_def Let_def split: prod.splits)

text \<open>
  C8. \<^verbatim>\<open>createOSSClient\<close> has no error result: it returns a client or the unavailable
  value. \<^verbatim>\<open>uploadFileToOSS\<close> awaits it and throws the unavailable error without touching
  a client. The handler of \<^verbatim>\<open>/api/upload-audio-file\<close> and \<^verbatim>\<open>testOSSConnection\<close> test the
  promise instead: with nothing configured the handler does not answer with the
  unavailable error but calls \<^verbatim>\<open>put\<close> on the promise and reports the \<^verbatim>\<open>TypeError\<close>, and
  it does the same when the store is configured.
\<close>

theorem unawaited_client_evaluation:
  "fst (createOSSClient unconfigured (oss one_upload)) = None
   \<and> fst (upload_audio_file unconfigured (Some (ascii ''a.webm'')) (ascii ''1700000000000'') one_upload)
       = Response 500 (ErrorBody (OSS_UPLOAD_FAILED @ ascii ''client.put is not a function''))
   \<and> fst (uploadFileToOSS unconfigured (ascii ''a.webm'') (ascii ''temp_audio/a.webm'') one_upload)
       = Inl (Error OSS_INCOMPLETE)
   \<and> fst (upload_audio_file configured (Some (ascii ''a.webm'')) (ascii ''1700000000000'') one_upload)
       = Response 500 (ErrorBody (OSS_UPLOAD_FAILED @ ascii ''client.put is not a function''))
   \<and> fst (uploadFileToOSS configured (ascii ''a.webm'') (ascii ''temp_audio/a.webm'') one_upload)
       = Inr (object_url stored_client (ascii ''temp_audio/a.webm''))
   \<and> fst (testOSSConnection configured oss_initial) = False"
proof -
  have f: "map_of (audio one_upload) (ascii ''a.webm'') = Some [1, 2, 3]"
    by (simp add: one_upload_def)
  have o: "oss one_upload = oss_initial" by (simp add: one_upload_def)
  have m: "message (not_a_function ''put'') = ascii ''client.put is not a function''"
    by (simp add: not_a_function_def ascii_def)
  have 1: "fst (createOSSClient unconfigured (oss one_upload)) = None"
    by (simp add: o create_unconfigured)
  have 2: "fst (uploadFileToOSS unconfigured (ascii ''a.webm'') (ascii ''temp_audio/a.webm'') one_upload)
       = Inl (Error OSS_INCOMPLETE)"
    by (simp add: uploadFileToOSS_def o create_unconfigured)
  have 3: "fst (uploadFileToOSS configured (ascii ''a.webm'') (ascii ''temp_audio/a.webm'') one_upload)
       = Inr (object_url stored_client (ascii ''temp_audio/a.webm''))"
    by (simp add: uploadFileToOSS_def o create_configured oss_initial_def fs_access_def
        client_put_def fs_readFile_def one_upload_def)
       (simp add: configured_def unconfigured_def)
  show ?thesis
    using 1 2 3 upload_audio_file_never_checks [OF f] testOSSConnection_false
    by (simp add: m)
qed

section \<open>Properties of the page text\<close>

lemma space_facts [simp]: "is_space 0x20" "\<not> is_space 0x3C" "\<not> is_space 0x3E"
  by (simp_all add: is_space_def)

lemma takeWhile_Nil_iff: "takeWhile P xs = [] \<longleftrightarrow> xs = [] \<or> \<not> P (hd xs)"
  by (cases xs) auto

lemma dropWhile_Nil_iff: "dropWhile P xs = [] \<longleftrightarrow> (\<forall>x\<in>set xs. P x)"
  by (induction xs) auto

lemma set_replace_tags: "set (replace_tags s) \<subseteq> insert 0x20 (set s)"
proof (induction s rule: replace_tags.induct)
  case 1
  then show ?case by simp
next
  case (2 c cs)
  show ?case
  proof (cases "c = 0x3C \<and> takeWhile (\<lambda>x. x \<noteq> 0x3E) cs \<noteq> [] \<and> dropWhile (\<lambda>x. x \<noteq> 0x3E) cs \<noteq> []")
    case True
    have "set (tl ys) \<subseteq> set ys" for ys :: jsstring by (cases ys) auto
    moreover have "set (dropWhile (\<lambda>x. x \<noteq> 0x3E) cs) \<subseteq> set cs"
      by (auto dest: set_dropWhileD)
    ultimately have "set (tl (dropWhile (\<lambda>x. x \<noteq> 0x3E) cs)) \<subseteq> set cs"
      by blast
    with 2(1) [OF True] True show ?thesis by auto
  next
    case False
    with 2(2) [OF False] show ?thesis by auto
  qed
qed

lemma hd_replace_tags: "s \<noteq> [] \<Longrightarrow> hd s = 0x3E \<Longrightarrow> replace_tags s \<noteq> [] \<and> hd (replace_tags s) = 0x3E"
  by (cases s) auto

lemma replace_tags_Nil: "replace_tags s = [] \<longleftrightarrow> s = []"
  by (cases s) auto

lemma no_tag_replace_tags: "\<not> has_tag (replace_tags s)"
proof (induction s rule: replace_tags.induct)
  case 1
  then show ?case by simp
next
  case (2 c cs)
  show ?case
  proof (cases "c = 0x3C \<and> takeWhile (\<lambda>x. x \<noteq> 0x3E) cs \<noteq> [] \<and> dropWhile (\<lambda>x. x \<noteq> 0x3E) cs \<noteq> []")
    case True
    with 2(1) [OF True] show ?thesis by simp
  next
    case False
    note IH = 2(2) [OF False]
    have "\<not> (c = 0x3C \<and> replace_tags cs \<noteq> [] \<and> hd (replace_tags cs) \<noteq> 0x3E
             \<and> 0x3E \<in> set (replace_tags cs))"
    proof
      assume a: "c = 0x3C \<and> replace_tags cs \<noteq> [] \<and> hd (replace_tags cs) \<noteq> 0x3E
             \<and> 0x3E \<in> set (replace_tags cs)"
      then have ne: "cs \<noteq> []" by (simp add: replace_tags_Nil)
      from a have "hd cs \<noteq> 0x3E" using hd_replace_tags [OF ne] by blast
      moreover from a set_replace_tags [of cs] have "0x3E \<in> set cs" by auto
      ultimately have "takeWhile (\<lambda>x. x \<noteq> 0x3E) cs \<noteq> [] \<and> dropWhile (\<lambda>x. x \<noteq> 0x3E) cs \<noteq> []"
        using ne by (auto simp: takeWhile_Nil_iff dropWhile_Nil_iff)
      with a False show False by blast
    qed
    with IH False show ?thesis by auto
  qed
qed

lemma has_tag_append_left: "has_tag xs \<Longrightarrow> has_tag (xs @ ys)"
  by (induction xs) auto

lemma has_tag_append_right: "has_tag ys \<Longrightarrow> has_tag (xs @ ys)"
  by (induction xs) auto

lemma has_tag_dropWhile: "has_tag (dropWhile P s) \<Longrightarrow> has_tag s"
  using has_tag_append_right [of "dropWhile P s" "takeWhile P s"] by simp

lemma set_collapse_whitespace: "set (collapse_whitespace s) \<subseteq> insert 0x20 (set s)"
proof (induction s rule: collapse_whitespace.induct)
  case 1
  then show ?case by simp
next
  case (2 c cs)
  have "set (dropWhile is_space cs) \<subseteq> set cs" by (auto dest: set_dropWhileD)
  with 2 show ?case by (cases "is_space c") auto
qed

lemma collapse_whitespace_Nil: "collapse_whitespace s = [] \<longleftrightarrow> s = []"
  by (cases s) auto

lemma hd_collapse_whitespace:
  "s \<noteq> [] \<Longrightarrow> \<not> is_space (hd s) \<Longrightarrow> hd (collapse_whitespace s) = hd s"
  by (cases s) auto

lemma has_tag_collapse_whitespace: "has_tag (collapse_whitespace s) \<Longrightarrow> has_tag s"
proof (induction s rule: collapse_whitespace.induct)
  case 1
  then show ?case by simp
next
  case (2 c cs)
  show ?case
  proof (cases "is_space c")
    case True
    with 2(3) have "has_tag (collapse_whitespace (dropWhile is_space cs))" by simp
    with 2(1) [OF True] have "has_tag (dropWhile is_space cs)" by simp
    then have "has_tag cs" by (rule has_tag_dropWhile)
    then show ?thesis by simp
  next
    case False
    with 2(3) have d: "(c = 0x3C \<and> collapse_whitespace cs \<noteq> [] \<and> hd (collapse_whitespace cs) \<noteq> 0x3E
                      \<and> 0x3E \<in> set (collapse_whitespace cs)) \<or> has_tag (collapse_whitespace cs)"
      by simp
    then show ?thesis
    proof
      assume a: "c = 0x3C \<and> collapse_whitespace cs \<noteq> [] \<and> hd (collapse_whitespace cs) \<noteq> 0x3E
                      \<and> 0x3E \<in> set (collapse_whitespace cs)"
      then have ne: "cs \<noteq> []" by (simp add: collapse_whitespace_Nil)
      have "hd cs \<noteq> 0x3E"
      proof
        assume "hd cs = 0x3E"
        with ne have "hd (collapse_whitespace cs) = 0x3E"
          using hd_collapse_whitespace [of cs] by simp
        with a show False by simp
      qed
      moreover from a set_collapse_whitespace [of cs] have "0x3E \<in> set cs" by auto
      ultimately show ?thesis using a ne by simp
    next
      assume "has_tag (collapse_whitespace cs)"
      with 2(2) [OF False] show ?thesis by simp
    qed
  qed
qed

lemma has_tag_shape:
  assumes "s = pre @ [0x3C] @ b @ [0x3E] @ post" and "b \<noteq> []" and "0x3E \<notin> set b"
  shows "has_tag s"
proof -
  from assms(2,3) have "has_tag ([0x3C] @ b @ [0x3E] @ post)"
    by (cases b) auto
  then show ?thesis unfolding assms(1) by (rule has_tag_append_right)
qed

lemma single_spaced_Cons: "single_spaced (c # s) \<Longrightarrow> single_spaced s"
  by (cases s) auto

lemma single_spaced_collapse: "single_spaced (collapse_whitespace s)"
proof (induction s rule: collapse_whitespace.induct)
  case 1
  then show ?case by simp
next
  case (2 c cs)
  show ?case
  proof (cases "is_space c")
    case True
    let ?d = "dropWhile is_space cs"
    show ?thesis
    proof (cases ?d)
      case Nil
      with True show ?thesis
        by (simp only: collapse_whitespace.simps if_True single_spaced.simps)
    next
      case (Cons y ys)
      then have "\<not> is_space y" using hd_dropWhile [of is_space cs] by (metis list.sel(1) list.distinct(1))
      with 2(1) [OF True] True Cons show ?thesis by simp
    qed
  next
    case False
    with 2(2) [OF False] show ?thesis
      by (cases "collapse_whitespace cs") auto
  qed
qed

lemma single_spaced_append: "single_spaced (xs @ ys) \<Longrightarrow> single_spaced xs \<and> single_spaced ys"
proof (induction xs)
  case Nil
  then show ?case by simp
next
  case (Cons c xs)
  show ?case
  proof (cases xs)
    case Nil
    with Cons.prems show ?thesis by (auto dest: single_spaced_Cons)
  next
    case (Cons d zs)
    with Cons.prems Cons.IH show ?thesis by auto
  qed
qed

lemma single_spaced_shape:
  assumes "single_spaced s"
  shows "\<not> (\<exists>pre c d post. s = pre @ c # d # post \<and> is_space c \<and> is_space d)"
proof
  assume "\<exists>pre c d post. s = pre @ c # d # post \<and> is_space c \<and> is_space d"
  then obtain pre c d post where s: "s = pre @ c # d # post" and sp: "is_space c" "is_space d"
    by blast
  from assms s have "single_spaced (c # d # post)" using single_spaced_append by blast
  with sp show False by simp
qed

lemma spaces_collapse: "c \<in> set (collapse_whitespace s) \<Longrightarrow> is_space c \<Longrightarrow> c = 0x20"
proof (induction s rule: collapse_whitespace.induct)
  case 1
  then show ?case by simp
next
  case (2 c' cs)
  then show ?case by (cases "is_space c'") auto
qed

lemma filter_dropWhile_not: "filter (\<lambda>c. \<not> P c) (dropWhile P s) = filter (\<lambda>c. \<not> P c) s"
  by (induction s) auto

lemma filter_collapse:
  "filter (\<lambda>c. \<not> is_space c) (collapse_whitespace s) = filter (\<lambda>c. \<not> is_space c) s"
proof (induction s rule: collapse_whitespace.induct)
  case 1
  then show ?case by simp
next
  case (2 c cs)
  then show ?case by (cases "is_space c") (auto simp: filter_dropWhile_not)
qed

lemma fold_case_lt [simp]: "fold_case c = 0x3C \<longleftrightarrow> c = 0x3C"
proof
  assume a: "fold_case c = 0x3C"
  show "c = 0x3C"
  proof (cases "0x41 \<le> c \<and> c \<le> 0x5A")
    case True
    with a have "c + 0x20 = 0x3C" by (simp add: fold_case_def)
    then have "c + 0x20 - 0x20 = 0x3C - 0x20" by (rule arg_cong)
    then have "c = 0x1C" by simp
    with True show ?thesis by simp
  next
    case False
    with a show ?thesis by (simp add: fold_case_def)
  qed
next
  assume "c = 0x3C"
  then show "fold_case c = 0x3C" by (simp add: fold_case_def)
qed


lemma fold_case_fixed [simp]: "fold_case 0x3C = 0x3C" "fold_case 0x2F = 0x2F" "fold_case 0x3E = 0x3E"
  by (simp_all add: fold_case_def)

lemma opening_Cons: "ascii ''<'' @ tag = 0x3C # tag"
  by (simp add: ascii_def)

lemma match_element_None: "\<not> matches_ci (0x3C # tag) s \<Longrightarrow> match_element tag s = None"
  by (simp add: match_element_def opening_Cons)

lemma match_element_not_lt: "c \<noteq> 0x3C \<Longrightarrow> match_element tag (c # cs) = None"
  by (rule match_element_None) simp

lemma matches_ci_stable: "list_all (\<lambda>c. fold_case c = c) p \<Longrightarrow> matches_ci p (p @ s)"
  by (induction p) auto

lemma matches_ci_cut: "length pat \<le> length s \<Longrightarrow> matches_ci pat (s @ t) = matches_ci pat s"
  by (induction pat s rule: matches_ci.induct) auto

lemma matches_ci_no_cross:
  "tag_name pat \<Longrightarrow> matches_ci pat (p @ 0x3C # rest) \<Longrightarrow> matches_ci pat p"
proof (induction pat p rule: matches_ci.induct)
  case (1 s)
  then show ?case by simp
next
  case (2 p ps)
  then show ?case by (auto simp: tag_name_def)
next
  case (3 p ps c cs)
  then show ?case by (simp add: tag_name_def)
qed

lemma remove_elements_plain:
  assumes "tag_name tag" and "\<not> occurs_ci (0x3C # tag) pre"
  shows "remove_elements tag (pre @ 0x3C # rest) = pre @ remove_elements tag (0x3C # rest)"
  using assms(2)
proof (induction pre)
  case Nil
  then show ?case by simp
next
  case (Cons c p)
  then have n: "\<not> matches_ci (0x3C # tag) (c # p)" and o: "\<not> occurs_ci (0x3C # tag) p"
    by simp_all
  have "\<not> matches_ci (0x3C # tag) (c # p @ 0x3C # rest)"
  proof
    assume "matches_ci (0x3C # tag) (c # p @ 0x3C # rest)"
    then have "fold_case c = 0x3C" and "matches_ci tag (p @ 0x3C # rest)" by simp_all
    with matches_ci_no_cross [OF assms(1)] have "matches_ci (0x3C # tag) (c # p)" by simp
    with n show False by simp
  qed
  then have "match_element tag (c # p @ 0x3C # rest) = None"
    by (rule match_element_None)
  with Cons.IH [OF o] show ?case by simp
qed

lemma closing_Cons: "closing tag = 0x3C # 0x2F # tag @ [0x3E]"
  by (simp add: closing_def ascii_def)

lemma tag_name_stable: "tag_name tag \<Longrightarrow> list_all (\<lambda>c. fold_case c = c) (closing tag)"
  by (induction tag) (auto simp: tag_name_def closing_Cons)

lemma matches_closing: "tag_name tag \<Longrightarrow> matches_ci (closing tag) (closing tag @ post)"
  by (rule matches_ci_stable) (rule tag_name_stable)

lemma length_closing: "length (closing tag) = length tag + 3"
  by (simp add: closing_Cons)

lemma find_closing_own:
  assumes "tag_name tag" and "\<not> occurs_ci (closing tag) (mid @ butlast (closing tag))"
  shows "find_closing (closing tag) (mid @ closing tag @ post) = Some post"
  using assms(2)
proof (induction mid)
  case Nil
  have "closing tag @ post = 0x3C # (0x2F # tag @ [0x3E]) @ post" by (simp add: closing_Cons)
  then show ?case using matches_closing [OF assms(1), of post] by simp
next
  case (Cons c m)
  then have n: "\<not> matches_ci (closing tag) (c # m @ butlast (closing tag))"
    and o: "\<not> occurs_ci (closing tag) (m @ butlast (closing tag))" by simp_all
  have cp: "closing tag @ post = butlast (closing tag) @ last (closing tag) # post"
    by (simp add: closing_Cons butlast_append)
  have "length (closing tag) \<le> length (c # m @ butlast (closing tag))"
    by (simp add: length_closing)
  from matches_ci_cut [OF this, of "last (closing tag) # post"] n
  have "\<not> matches_ci (closing tag) ((c # m @ butlast (closing tag)) @ last (closing tag) # post)"
    by simp
  moreover have "(c # m @ butlast (closing tag)) @ last (closing tag) # post
                   = c # m @ closing tag @ post"
    by (simp add: cp)
  ultimately have "\<not> matches_ci (closing tag) (c # m @ closing tag @ post)"
    by (rule subst [where P = "\<lambda>x. \<not> matches_ci (closing tag) x", rotated])
  with Cons.IH [OF o] show ?case by simp
qed

lemma match_element_own:
  assumes "tag_name tag" and "attrs = [] \<or> \<not> is_word (hd attrs)"
    and "\<not> occurs_ci (closing tag) (attrs @ ascii ''>'' @ inner @ butlast (closing tag))"
  shows "match_element tag (element tag attrs inner @ post) = Some post"
proof -
  let ?mid = "attrs @ ascii ''>'' @ inner"
  have e: "element tag attrs inner @ post = (0x3C # tag) @ ?mid @ closing tag @ post"
    by (simp add: element_def ascii_def)
  have m: "matches_ci (0x3C # tag) ((0x3C # tag) @ ?mid @ closing tag @ post)"
    using assms(1) by (intro matches_ci_stable) (auto simp: tag_name_def list_all_iff)
  have w: "\<not> is_word (hd (?mid @ closing tag @ post))"
    using assms(2) by (cases attrs) (auto simp: ascii_def is_word_def)
  have f: "find_closing (closing tag) (?mid @ closing tag @ post) = Some post"
    using find_closing_own [OF assms(1), of ?mid post] assms(3) by simp
  show ?thesis
    unfolding e using m w f
    by (simp add: match_element_def opening_Cons closing_def del: matches_ci.simps)
qed

lemma remove_elements_match:
  assumes "match_element tag s = Some rest"
  shows "remove_elements tag s = remove_elements tag rest"
proof (cases s)
  case Nil
  with assms show ?thesis by (simp add: match_element_def opening_Cons)
next
  case (Cons c cs)
  with assms show ?thesis by simp
qed

lemma element_Cons: "element tag attrs inner @ post = 0x3C # tl (element tag attrs inner) @ post"
  by (simp add: element_def ascii_def)

text \<open>
  One pass over the elements of a kind cuts an element out with its content when no
  opening of that kind stands before it and the first exact closing tag behind its
  opening is its own.
\<close>

lemma element_removed:
  assumes "tag_name tag" and "\<not> occurs_ci (0x3C # tag) pre"
    and "attrs = [] \<or> \<not> is_word (hd attrs)"
    and "\<not> occurs_ci (closing tag) (attrs @ ascii ''>'' @ inner @ butlast (closing tag))"
  shows "remove_elements tag (pre @ element tag attrs inner @ post)
           = pre @ remove_elements tag post"
proof -
  have "remove_elements tag (pre @ element tag attrs inner @ post)
          = pre @ remove_elements tag (element tag attrs inner @ post)"
    using remove_elements_plain [OF assms(1,2)] by (simp add: element_Cons [of tag attrs inner post])
  also have "remove_elements tag (element tag attrs inner @ post) = remove_elements tag post"
    using match_element_own [OF assms(1,3,4), of post] by (rule remove_elements_match)
  finally show ?thesis .
qed

lemma trim_sublist: "\<exists>pre post. pre @ trim s @ post = s"
  using trim_decomp [of s] by metis

lemma has_tag_trim: "has_tag (trim s) \<Longrightarrow> has_tag s"
proof -
  assume h: "has_tag (trim s)"
  from trim_sublist [of s] obtain pre post where s: "pre @ trim s @ post = s" by blast
  from h have "has_tag (trim s @ post)" by (rule has_tag_append_left)
  then have "has_tag (pre @ trim s @ post)" by (rule has_tag_append_right)
  then show ?thesis by (simp only: s)
qed

lemma has_tag_take: "has_tag (take n s) \<Longrightarrow> has_tag s"
  using has_tag_append_left [of "take n s" "drop n s"] by simp

lemma no_tag_page_text: "\<not> contains_tag (page_text body)"
proof
  assume "contains_tag (page_text body)"
  then have "has_tag (page_text body)"
    unfolding contains_tag_def using has_tag_shape by blast
  then have "has_tag (clean_text body)"
    unfolding page_text_def by (rule has_tag_take)
  then have "has_tag (collapse_whitespace (replace_tags
       (remove_elements (ascii ''style'') (remove_elements (ascii ''script'') body))))"
    unfolding clean_text_def by (rule has_tag_trim)
  then have "has_tag (replace_tags
       (remove_elements (ascii ''style'') (remove_elements (ascii ''script'') body)))"
    by (rule has_tag_collapse_whitespace)
  then show False by (simp add: no_tag_replace_tags)
qed

lemma set_trim: "set (trim s) \<subseteq> set s"
proof -
  from trim_sublist [of s] obtain pre post where s: "pre @ trim s @ post = s" by blast
  have "set (trim s) \<subseteq> set (pre @ trim s @ post)" by auto
  then show ?thesis by (simp only: s)
qed

lemma single_spaced_trim: "single_spaced s \<Longrightarrow> single_spaced (trim s)"
proof -
  assume a: "single_spaced s"
  from trim_sublist [of s] obtain pre post where s: "pre @ trim s @ post = s" by blast
  from a have "single_spaced (pre @ trim s @ post)" by (simp only: s)
  then have "single_spaced (trim s @ post)" using single_spaced_append by blast
  then show ?thesis using single_spaced_append by blast
qed

lemma filter_trim: "filter (\<lambda>c. \<not> is_space c) (trim s) = filter (\<lambda>c. \<not> is_space c) s"
proof -
  from trim_decomp [of s] obtain pre post where
    s: "pre @ trim s @ post = s" and p: "\<forall>c\<in>set pre. is_space c" "\<forall>c\<in>set post. is_space c"
    by metis
  from p have "filter (\<lambda>c. \<not> is_space c) pre = []" "filter (\<lambda>c. \<not> is_space c) post = []"
    by (simp_all add: filter_empty_conv)
  then have "filter (\<lambda>c. \<not> is_space c) (pre @ trim s @ post) = filter (\<lambda>c. \<not> is_space c) (trim s)"
    by simp
  then show ?thesis by (simp only: s)
qed

lemma clean_text_tagless: "clean_text body = trim (collapse_whitespace (tagless body))"
  by (simp add: clean_text_def tagless_def)

lemma whitespace_collapsed_clean: "whitespace_collapsed (clean_text body)"
proof -
  let ?x = "collapse_whitespace (tagless body)"
  have a: "\<forall>c\<in>set (trim ?x). is_space c \<longrightarrow> c = 0x20"
    using set_trim [of ?x] spaces_collapse [of _ "tagless body"] by blast
  have b: "\<not> (\<exists>pre c d post. trim ?x = pre @ c # d # post \<and> is_space c \<and> is_space d)"
    by (rule single_spaced_shape) (rule single_spaced_trim, rule single_spaced_collapse)
  have c: "trim ?x \<noteq> [] \<longrightarrow> \<not> is_space (hd (trim ?x)) \<and> \<not> is_space (last (trim ?x))"
    using trim_ends [of ?x] by blast
  from a b c show ?thesis unfolding whitespace_collapsed_def clean_text_tagless by blast
qed

text \<open>
  What holds of the page text for every fetched body: it is the first 10,000 code units
  of the cleaned text; it contains no substring of the shape of a tag; in the cleaned
  text every white space is a single space between two other characters, none leads or
  trails, and the characters that are not white space are those left by the three tag
  passes, in order.
\<close>

lemma page_text_normal_form:
  "length (page_text body) \<le> 10000
   \<and> page_text body = take 10000 (clean_text body)
   \<and> \<not> contains_tag (page_text body)
   \<and> clean_text body = trim (collapse_whitespace (tagless body))
   \<and> whitespace_collapsed (clean_text body)
   \<and> filter (\<lambda>c. \<not> is_space c) (clean_text body) = filter (\<lambda>c. \<not> is_space c) (tagless body)"
proof -
  have 1: "length (page_text body) \<le> 10000" by (simp add: page_text_def)
  have 2: "page_text body = take 10000 (clean_text body)" by (simp add: page_text_def)
  have 3: "filter (\<lambda>c. \<not> is_space c) (clean_text body) = filter (\<lambda>c. \<not> is_space c) (tagless body)"
    by (simp add: clean_text_tagless filter_trim filter_collapse)
  from 1 2 3 no_tag_page_text clean_text_tagless whitespace_collapsed_clean
  show ?thesis by (intro conjI)
qed

text \<open>The scenario of the specification: the body of a page with one paragraph.\<close>

lemma page_text_hello:
  "page_text (ascii ''<html><body><p>Hello</p></body></html>'') = ascii ''Hello''"
  by code_simp

text \<open>
  C9. The content of a \<^verbatim>\<open>script\<close> element is not always removed. The first pass of
  \<^verbatim>\<open>fetchWebPageContent\<close> is there to remove the \<^verbatim>\<open>script\<close> elements with their content,
  and its regular expression ends in the literal \<^verbatim>\<open></script>\<close>. A closing tag written
  \<^verbatim>\<open></script >\<close>, which HTML accepts as the end tag of the element, is not matched: the element
  stays, the third pass replaces its two tags by spaces, and the code of the script is
  part of the page text. With the closing tag written \<^verbatim>\<open></script>\<close> the same body gives
  the text of the paragraph alone.
\<close>

theorem script_content_kept_evaluation:
  "page_text (ascii ''<p>Hi</p><script>alert(1)</script >'') = ascii ''Hi alert(1)''
   \<and> page_text (ascii ''<p>Hi</p><script>alert(1)</script>'') = ascii ''Hi''"
proof
  show "page_text (ascii ''<p>Hi</p><script>alert(1)</script >'') = ascii ''Hi alert(1)''"
    by code_simp
  show "page_text (ascii ''<p>Hi</p><script>alert(1)</script>'') = ascii ''Hi''"
    by code_simp
qed

section \<open>Properties of the task orchestrator\<close>

lemma readTask_Some: "tasks w tid = Some t \<Longrightarrow> readTask w tid = Inr t"
  by (simp add: readTask_def)

lemma saveTask_lookup: "tasks (saveTask w t) (id' t) = Some t"
  by (simp add: saveTask_def)

lemma saveTask_other [simp]:
  "audio (saveTask w t) = audio w" "oss (saveTask w t) = oss w" "objects (saveTask w t) = objects w"
  by (simp_all add: saveTask_def)

lemma upload_tasks: "tasks (snd (uploadFileToOSS env p k w)) = tasks w"
  by (auto simp: uploadFileToOSS_def client_put_def Let_def
           split: prod.splits sum.splits option.splits if_splits)

lemma upload_result_tasks:
  "fst (uploadFileToOSS env p k (saveTask w t)) = fst (uploadFileToOSS env p k w)"
  by (auto simp: uploadFileToOSS_def client_put_def Let_def saveTask_def
           split: prod.splits sum.splits option.splits if_splits)

lemma webpage_fetch_fails:
  assumes "tasks w tid = Some t" and "id' t = tid" and "type' t = webpage"
    and "fetchWebPageContent sv (url t) = Inl e"
  shows "process_webpage sv tid w =
           (Response 500 (ErrorBody (message e)),
            w\<lparr>tasks := (tasks w)(tid \<mapsto> t\<lparr>status := failed,
                                             summary := Some (PROCESS_FAILED @ message e)\<rparr>)\<rparr>)"
  using assms
  by (simp add: process_webpage_def process_webpage_try_def readTask_Some Let_def
      mark_failed_def readTask_def saveTask_def)

lemma webpage_no_config:
  assumes "tasks w tid = Some t" and "id' t = tid" and "type' t = webpage"
    and "fetchWebPageContent sv (url t) = Inr c"
    and "stored_llm_config (transcription sv) = None"
  shows "process_webpage sv tid w =
           (Response 500 (ErrorBody NEED_LLM_CONFIG),
            w\<lparr>tasks := (tasks w)(tid \<mapsto> t\<lparr>content := Some c, status := failed,
                                             summary := Some (PROCESS_FAILED @ NEED_LLM_CONFIG)\<rparr>)\<rparr>)"
  using assms
  by (simp add: process_webpage_def process_webpage_try_def readTask_Some Let_def
      mark_failed_def readTask_def saveTask_def)

lemma webpage_summary_fails:
  assumes "tasks w tid = Some t" and "id' t = tid" and "type' t = webpage"
    and "fetchWebPageContent sv (url t) = Inr c"
    and "stored_llm_config (transcription sv) = Some cfg"
    and "generateSummaryWithLLM sv c cfg = Inl e"
  shows "process_webpage sv tid w =
           (Response 500 (ErrorBody (message e)),
            w\<lparr>tasks := (tasks w)(tid \<mapsto> t\<lparr>content := Some c, status := failed,
                                             summary := Some (PROCESS_FAILED @ message e)\<rparr>)\<rparr>)"
  using assms
  by (simp add: process_webpage_def process_webpage_try_def readTask_Some Let_def
      mark_failed_def readTask_def saveTask_def)

lemma stop_capture_fails:
  assumes "tasks w tid = Some t" and "id' t = tid" and "type' t = live"
    and "stopLiveRecording (id' t) (audio w) = (Inl e, d)"
  shows "stop_recording tid w =
           (Response 500 (ErrorBody (message e)),
            w\<lparr>audio := d,
              tasks := (tasks w)(tid \<mapsto> t\<lparr>status := failed, isRecording := Some False,
                                             summary := Some (PROCESS_FAILED @ message e)\<rparr>)\<rparr>)"
  using assms
  by (simp add: stop_recording_def stop_recording_try_def readTask_Some
      mark_failed_stop_def readTask_def saveTask_def)

lemma upload_fails:
  assumes "tasks w tid = Some t" and "id' t = tid" and "type' t = live"
    and "map_of (audio w) (id' t @ ascii ''.webm'') = Some data"
    and "fst (uploadFileToOSS (surroundings sv) (id' t @ ascii ''.webm'')
                (ascii ''temp_audio/'' @ id' t @ ascii ''.webm'') w) = Inl e"
  shows "fst (generate_audio_summary sv tid w) = Response 500 (ErrorBody (message e))
       \<and> tasks (snd (generate_audio_summary sv tid w)) =
           (tasks w)(tid \<mapsto> t\<lparr>status := failed, summary := Some (SUMMARY_FAILED @ message e)\<rparr>)"
proof -
  let ?t1 = "t\<lparr>status := processing\<rparr>"
  let ?u = "uploadFileToOSS (surroundings sv) (id' t @ ascii ''.webm'')
              (ascii ''temp_audio/'' @ id' t @ ascii ''.webm'') (saveTask w ?t1)"
  from assms(5) have f: "fst ?u = Inl e" by (simp add: upload_result_tasks)
  have k: "tasks (snd ?u) = (tasks w)(tid \<mapsto> ?t1)"
    using assms(2) by (simp add: upload_tasks saveTask_def)
  obtain w2 where u: "?u = (Inl e, w2)" using f by (cases ?u) auto
  with k have k2: "tasks w2 = (tasks w)(tid \<mapsto> ?t1)" by simp
  have t: "generate_audio_summary_try sv tid w = Thrown e w2"
    using assms(1-4) u
    by (simp add: generate_audio_summary_try_def readTask_Some fs_access_def Let_def)
  show ?thesis
    using assms(2) k2
    by (simp add: generate_audio_summary_def t mark_failed_def readTask_def saveTask_def)
qed

lemma transcription_fails:
  assumes "tasks w tid = Some t" and "id' t = tid" and "type' t = live"
    and "tid \<noteq> []" and "is_set fileUrl"
    and "fst (audioToTextWithParaformer (transcription sv)) = Inl e"
  shows "process_audio_summary sv (Some tid) fileUrl w =
           (Response 500 (ErrorBody (message e)),
            w\<lparr>tasks := (tasks w)(tid \<mapsto> t\<lparr>status := failed,
                                             summary := Some (SUMMARY_FAILED @ message e)\<rparr>)\<rparr>)"
  using assms
  by (simp add: process_audio_summary_def process_audio_summary_try_def readTask_Some
      text_of_def is_set_def Let_def mark_failed_def readTask_def saveTask_def)

lemma audio_summary_fails:
  assumes "tasks w tid = Some t" and "id' t = tid" and "type' t = live"
    and "tid \<noteq> []" and "is_set fileUrl"
    and "fst (audioToTextWithParaformer (transcription sv)) = Inr c"
    and "stored_llm_config (transcription sv) = Some cfg"
    and "generateSummaryWithLLM sv c cfg = Inl e"
  shows "process_audio_summary sv (Some tid) fileUrl w =
           (Response 500 (ErrorBody (message e)),
            w\<lparr>tasks := (tasks w)(tid \<mapsto> t\<lparr>content := Some c, status := failed,
                                             summary := Some (SUMMARY_FAILED @ message e)\<rparr>)\<rparr>)"
  using assms
  by (simp add: process_audio_summary_def process_audio_summary_try_def readTask_Some
      text_of_def is_set_def Let_def mark_failed_def readTask_def saveTask_def)

text \<open>
  C1 (amended). For a task whose record is stored under its id, when a stage of a pipeline
  fails, the handler answers 500 with the message of the error and saves the record with
  \<^verbatim>\<open>status = failed\<close> and the summary overwritten by a fixed prefix followed by that
  message; a stage that had succeeded before has left its text in \<^verbatim>\<open>content\<close>; nothing
  else of the record and no other record changes. The stages are, in the webpage
  pipeline, the fetch of the page, the read of the LLM configuration and the
  summarization; in the live stop-capture path, the search and the rename of the
  recording; in the live summarize path, the upload of the recording, the transcription
  (to which a missing LLM configuration belongs) and the summarization. Only the
  stop-capture path sets \<^verbatim>\<open>isRecording\<close> to \<^verbatim>\<open>false\<close>; the webpage pipeline and the live
  summarize path leave it as it was.
\<close>

theorem failure_recorded:
  assumes "tasks w tid = Some t" and "id' t = tid"
  shows
    "(type' t = webpage \<and> fetchWebPageContent sv (url t) = Inl e \<longrightarrow>
        fst (process_webpage sv tid w) = Response 500 (ErrorBody (message e))
        \<and> tasks (snd (process_webpage sv tid w)) =
            (tasks w)(tid \<mapsto> t\<lparr>status := failed, summary := Some (PROCESS_FAILED @ message e)\<rparr>))
     \<and> (type' t = webpage \<and> fetchWebPageContent sv (url t) = Inr c
          \<and> stored_llm_config (transcription sv) = None \<longrightarrow>
        fst (process_webpage sv tid w) = Response 500 (ErrorBody NEED_LLM_CONFIG)
        \<and> tasks (snd (process_webpage sv tid w)) =
            (tasks w)(tid \<mapsto> t\<lparr>content := Some c, status := failed,
                                  summary := Some (PROCESS_FAILED @ NEED_LLM_CONFIG)\<rparr>))
     \<and> (type' t = webpage \<and> fetchWebPageContent sv (url t) = Inr c
          \<and> stored_llm_config (transcription sv) = Some cfg
          \<and> generateSummaryWithLLM sv c cfg = Inl e \<longrightarrow>
        fst (process_webpage sv tid w) = Response 500 (ErrorBody (message e))
        \<and> tasks (snd (process_webpage sv tid w)) =
            (tasks w)(tid \<mapsto> t\<lparr>content := Some c, status := failed,
                                  summary := Some (PROCESS_FAILED @ message e)\<rparr>))
     \<and> (type' t = live \<and> fst (stopLiveRecording (id' t) (audio w)) = Inl e \<longrightarrow>
        fst (stop_recording tid w) = Response 500 (ErrorBody (message e))
        \<and> tasks (snd (stop_recording tid w)) =
            (tasks w)(tid \<mapsto> t\<lparr>status := failed, isRecording := Some False,
                                  summary := Some (PROCESS_FAILED @ message e)\<rparr>))
     \<and> (type' t = live \<and> map_of (audio w) (id' t @ ascii ''.webm'') = Some data
          \<and> fst (uploadFileToOSS (surroundings sv) (id' t @ ascii ''.webm'')
                    (ascii ''temp_audio/'' @ id' t @ ascii ''.webm'') w) = Inl e \<longrightarrow>
        fst (generate_audio_summary sv tid w) = Response 500 (ErrorBody (message e))
        \<and> tasks (snd (generate_audio_summary sv tid w)) =
            (tasks w)(tid \<mapsto> t\<lparr>status := failed, summary := Some (SUMMARY_FAILED @ message e)\<rparr>))
     \<and> (type' t = live \<and> tid \<noteq> [] \<and> is_set fileUrl
          \<and> fst (audioToTextWithParaformer (transcription sv)) = Inl e \<longrightarrow>
        fst (process_audio_summary sv (Some tid) fileUrl w) = Response 500 (ErrorBody (message e))
        \<and> tasks (snd (process_audio_summary sv (Some tid) fileUrl w)) =
            (tasks w)(tid \<mapsto> t\<lparr>status := failed, summary := Some (SUMMARY_FAILED @ message e)\<rparr>))
     \<and> (type' t = live \<and> tid \<noteq> [] \<and> is_set fileUrl
          \<and> fst (audioToTextWithParaformer (transcription sv)) = Inr c
          \<and> stored_llm_config (transcription sv) = Some cfg
          \<and> generateSummaryWithLLM sv c cfg = Inl e \<longrightarrow>
        fst (process_audio_summary sv (Some tid) fileUrl w) = Response 500 (ErrorBody (message e))
        \<and> tasks (snd (process_audio_summary sv (Some tid) fileUrl w)) =
            (tasks w)(tid \<mapsto> t\<lparr>content := Some c, status := failed,
                                  summary := Some (SUMMARY_FAILED @ message e)\<rparr>))"
proof (intro conjI impI; elim conjE)
  assume "type' t = webpage" "fetchWebPageContent sv (url t) = Inl e"
  note r = webpage_fetch_fails [OF assms this]
  show "fst (process_webpage sv tid w) = Response 500 (ErrorBody (message e))"
    by (simp add: r)
  show "tasks (snd (process_webpage sv tid w)) =
            (tasks w)(tid \<mapsto> t\<lparr>status := failed, summary := Some (PROCESS_FAILED @ message e)\<rparr>)"
    by (simp add: r)
next
  assume "type' t = webpage" "fetchWebPageContent sv (url t) = Inr c"
    "stored_llm_config (transcription sv) = None"
  note r = webpage_no_config [OF assms this]
  show "fst (process_webpage sv tid w) = Response 500 (ErrorBody NEED_LLM_CONFIG)"
    by (simp add: r)
  show "tasks (snd (process_webpage sv tid w)) =
            (tasks w)(tid \<mapsto> t\<lparr>content := Some c, status := failed,
                                  summary := Some (PROCESS_FAILED @ NEED_LLM_CONFIG)\<rparr>)"
    by (simp add: r)
next
  assume "type' t = webpage" "fetchWebPageContent sv (url t) = Inr c"
    "stored_llm_config (transcription sv) = Some cfg" "generateSummaryWithLLM sv c cfg = Inl e"
  note r = webpage_summary_fails [OF assms this]
  show "fst (process_webpage sv tid w) = Response 500 (ErrorBody (message e))"
    by (simp add: r)
  show "tasks (snd (process_webpage sv tid w)) =
            (tasks w)(tid \<mapsto> t\<lparr>content := Some c, status := failed,
                                  summary := Some (PROCESS_FAILED @ message e)\<rparr>)"
    by (simp add: r)
next
  assume l: "type' t = live" and "fst (stopLiveRecording (id' t) (audio w)) = Inl e"
  then obtain d where "stopLiveRecording (id' t) (audio w) = (Inl e, d)"
    by (cases "stopLiveRecording (id' t) (audio w)") auto
  note r = stop_capture_fails [OF assms l this]
  show "fst (stop_recording tid w) = Response 500 (ErrorBody (message e))"
    by (simp add: r)
  show "tasks (snd (stop_recording tid w)) =
            (tasks w)(tid \<mapsto> t\<lparr>status := failed, isRecording := Some False,
                                  summary := Some (PROCESS_FAILED @ message e)\<rparr>)"
    by (simp add: r)
next
  assume "type' t = live" "map_of (audio w) (id' t @ ascii ''.webm'') = Some data"
    "fst (uploadFileToOSS (surroundings sv) (id' t @ ascii ''.webm'')
                    (ascii ''temp_audio/'' @ id' t @ ascii ''.webm'') w) = Inl e"
  note r = upload_fails [OF assms this]
  from r show "fst (generate_audio_summary sv tid w) = Response 500 (ErrorBody (message e))" ..
  from r show "tasks (snd (generate_audio_summary sv tid w)) =
            (tasks w)(tid \<mapsto> t\<lparr>status := failed, summary := Some (SUMMARY_FAILED @ message e)\<rparr>)" ..
next
  assume "type' t = live" "tid \<noteq> []" "is_set fileUrl"
    "fst (audioToTextWithParaformer (transcription sv)) = Inl e"
  note r = transcription_fails [OF assms this]
  show "fst (process_audio_summary sv (Some tid) fileUrl w) = Response 500 (ErrorBody (message e))"
    by (simp add: r)
  show "tasks (snd (process_audio_summary sv (Some tid) fileUrl w)) =
            (tasks w)(tid \<mapsto> t\<lparr>status := failed, summary := Some (SUMMARY_FAILED @ message e)\<rparr>)"
    by (simp add: r)
next
  assume "type' t = live" "tid \<noteq> []" "is_set fileUrl"
    "fst (audioToTextWithParaformer (transcription sv)) = Inr c"
    "stored_llm_config (transcription sv) = Some cfg" "generateSummaryWithLLM sv c cfg = Inl e"
  note r = audio_summary_fails [OF assms this]
  show "fst (process_audio_summary sv (Some tid) fileUrl w) = Response 500 (ErrorBody (message e))"
    by (simp add: r)
  show "tasks (snd (process_audio_summary sv (Some tid) fileUrl w)) =
            (tasks w)(tid \<mapsto> t\<lparr>content := Some c, status := failed,
                                  summary := Some (SUMMARY_FAILED @ message e)\<rparr>)"
    by (simp add: r)
qed

text \<open>
  C10. For a live task whose canonical audio file \<^verbatim>\<open>{task.id}.webm\<close> is not in the audio
  directory, \<^verbatim>\<open>POST /api/generate-audio-summary/:id\<close> answers 400 with the precondition
  error and leaves the whole state of the server, the task record included, as it was.
\<close>

theorem precondition_leaves_task:
  assumes "tasks w tid = Some t" and "type' t = live"
    and "map_of (audio w) (id' t @ ascii ''.webm'') = None"
  shows "generate_audio_summary sv tid w = (Response 400 (ErrorBody AUDIO_MISSING), w)"
  using assms
  by (simp add: generate_audio_summary_def generate_audio_summary_try_def readTask_Some
      fs_access_def Let_def)

lemma FAILED_neq_SUCCEEDED: "ascii ''FAILED'' \<noteq> ascii ''SUCCEEDED''"
  by (simp add: ascii_def)

lemma poll_loop_failed:
  assumes "attempts < k" and "k \<le> maxAttempts"
    and "\<And>n. attempts < n \<Longrightarrow> n < k \<Longrightarrow> still_running (q n)"
    and "q k = Inr out" and "task_status out = JStr (ascii ''FAILED'')"
  shows "fst (poll_loop q attempts) =
           Inl (Error (TRANSCRIBE_FAILED @ to_string (output_message out)))"
  using assms
proof (induction q attempts rule: poll_loop.induct)
  case (1 q attempts)
  from "1.prems"(1,2) have lt: "attempts < maxAttempts" by simp
  show ?case
  proof (cases "attempts + 1 = k")
    case True
    with "1.prems"(4) have "q (attempts + 1) = Inr out" by simp
    with lt "1.prems"(5) FAILED_neq_SUCCEEDED show ?thesis
      by (subst poll_loop.simps) simp
  next
    case False
    with "1.prems"(1) have lt': "attempts + 1 < k" by simp
    then have "still_running (q (attempts + 1))" using "1.prems"(3) by simp
    then obtain out' where out': "q (attempts + 1) = Inr out'"
      "task_status out' \<noteq> JStr (ascii ''SUCCEEDED'')" "task_status out' \<noteq> JStr (ascii ''FAILED'')"
      by (auto simp: still_running_def split: sum.splits)
    have "fst (poll_loop q (attempts + 1)) =
           Inl (Error (TRANSCRIBE_FAILED @ to_string (output_message out)))"
      using "1.IH" [OF lt out'(1) out'(2) out'(3) lt' "1.prems"(2) _ "1.prems"(4,5)] "1.prems"(3)
      by simp
    with lt out' show ?thesis
      by (subst poll_loop.simps) (simp add: case_prod_beta)
  qed
qed

lemma client_failed:
  assumes "stored_llm_config sv = Some config" and "apiKey config \<noteq> []"
    and "submit sv = Inr task_id" and "truthy task_id"
    and "1 \<le> k" and "k \<le> 30"
    and "\<forall>n. 1 \<le> n \<and> n < k \<longrightarrow> still_running (poll sv n)"
    and "poll sv k = Inr out" and "task_status out = JStr (ascii ''FAILED'')"
  shows "fst (audioToTextWithParaformer sv) =
           Inl (Error (AUDIO_TO_TEXT_FAILED @ TRANSCRIBE_FAILED @ to_string (output_message out)))"
proof -
  have "fst (poll_loop (poll sv) 0) =
           Inl (Error (TRANSCRIBE_FAILED @ to_string (output_message out)))"
    using assms(5-9) by (intro poll_loop_failed [of 0 k]) (auto simp: maxAttempts_def)
  then show ?thesis
    using assms(1-4)
    by (cases "poll_loop (poll sv) 0")
       (simp add: audioToTextWithParaformer_def transcribe_def)
qed

lemma mark_failed_objects: "objects (snd (mark_failed p tid e w)) = objects w"
  by (simp add: mark_failed_def split: sum.splits)

lemma try_objects:
  "process_audio_summary_try sv taskId fileUrl w = Sent r w' \<Longrightarrow> objects w' = objects w"
  "process_audio_summary_try sv taskId fileUrl w = Thrown e w' \<Longrightarrow> objects w' = objects w"
  by (auto simp: process_audio_summary_try_def Let_def
           split: if_splits sum.splits option.splits)

lemma summary_objects: "objects (snd (process_audio_summary sv taskId fileUrl w)) = objects w"
  by (cases "process_audio_summary_try sv taskId fileUrl w")
     (simp_all add: process_audio_summary_def try_objects mark_failed_objects)

lemma summary_fails:
  assumes "fst (audioToTextWithParaformer (transcription sv)) = Inl e"
    and "tasks w tid = Some t" and "type' t = live" and "tid \<noteq> []" and "is_set fileUrl"
  shows "fst (process_audio_summary sv (Some tid) fileUrl w) = Response 500 (ErrorBody (message e))"
  using assms
  by (simp add: process_audio_summary_def process_audio_summary_try_def readTask_Some
      text_of_def is_set_def mark_failed_def Let_def)

text \<open>
  C4 (amended). When the configuration and the submit are in order and the first status
  query that is not \<^verbatim>\<open>RUNNING\<close>, among the first 30, answers \<^verbatim>\<open>FAILED\<close>, the client throws
  an error whose message carries the message of the service. The live summarize handler
  answers 500 with it and saves the task, stored under its id, with \<^verbatim>\<open>status = failed\<close>
  and the summary overwritten by the fixed prefix followed by that message; nothing else
  of the task and no other task changes. The handler never deletes anything from the
  bucket: the objects are what they were, whatever the services answer.
\<close>

theorem job_failed:
  assumes "stored_llm_config (transcription sv) = Some config" and "apiKey config \<noteq> []"
    and "submit (transcription sv) = Inr task_id" and "truthy task_id"
    and "1 \<le> k" and "k \<le> 30"
    and "\<forall>n. 1 \<le> n \<and> n < k \<longrightarrow> still_running (poll (transcription sv) n)"
    and "poll (transcription sv) k = Inr out" and "task_status out = JStr (ascii ''FAILED'')"
  shows "fst (audioToTextWithParaformer (transcription sv)) =
           Inl (Error (AUDIO_TO_TEXT_FAILED @ TRANSCRIBE_FAILED @ to_string (output_message out)))
       \<and> (tasks w tid = Some t \<and> type' t = live \<and> tid \<noteq> [] \<and> is_set fileUrl \<longrightarrow>
            fst (process_audio_summary sv (Some tid) fileUrl w) =
              Response 500 (ErrorBody (AUDIO_TO_TEXT_FAILED @ TRANSCRIBE_FAILED
                                       @ to_string (output_message out))))
       \<and> (tasks w tid = Some t \<and> id' t = tid \<and> type' t = live \<and> tid \<noteq> [] \<and> is_set fileUrl \<longrightarrow>
            tasks (snd (process_audio_summary sv (Some tid) fileUrl w)) =
              (tasks w)(tid \<mapsto> t\<lparr>status := failed,
                                    summary := Some (SUMMARY_FAILED @ AUDIO_TO_TEXT_FAILED
                                                     @ TRANSCRIBE_FAILED
                                                     @ to_string (output_message out))\<rparr>))
       \<and> objects (snd (process_audio_summary sv taskId fileUrl' w')) = objects w'"
proof -
  note c = client_failed [OF assms]
  have 1: "tasks w tid = Some t \<and> type' t = live \<and> tid \<noteq> [] \<and> is_set fileUrl \<longrightarrow>
            fst (process_audio_summary sv (Some tid) fileUrl w) =
              Response 500 (ErrorBody (AUDIO_TO_TEXT_FAILED @ TRANSCRIBE_FAILED
                                       @ to_string (output_message out)))"
    using summary_fails [OF c, of w tid t fileUrl] by simp
  have 2: "tasks w tid = Some t \<and> id' t = tid \<and> type' t = live \<and> tid \<noteq> [] \<and> is_set fileUrl \<longrightarrow>
            tasks (snd (process_audio_summary sv (Some tid) fileUrl w)) =
              (tasks w)(tid \<mapsto> t\<lparr>status := failed,
                                    summary := Some (SUMMARY_FAILED @ AUDIO_TO_TEXT_FAILED
                                                     @ TRANSCRIBE_FAILED
                                                     @ to_string (output_message out))\<rparr>)"
  proof (intro impI; elim conjE)
    assume h: "tasks w tid = Some t" "id' t = tid" "type' t = live" "tid \<noteq> []" "is_set fileUrl"
    show "tasks (snd (process_audio_summary sv (Some tid) fileUrl w)) =
              (tasks w)(tid \<mapsto> t\<lparr>status := failed,
                                    summary := Some (SUMMARY_FAILED @ AUDIO_TO_TEXT_FAILED
                                                     @ TRANSCRIBE_FAILED
                                                     @ to_string (output_message out))\<rparr>)"
      by (simp add: transcription_fails [OF h c])
  qed
  from c 1 2 summary_objects show ?thesis by (intro conjI)
qed

lemma bad_audio_client:
  "fst (audioToTextWithParaformer (transcription bad_audio)) =
     Inl (Error (AUDIO_TO_TEXT_FAILED @ TRANSCRIBE_FAILED @ ascii ''bad audio''))"
  apply (simp add: audioToTextWithParaformer_def transcribe_def bad_audio_def)
  apply (subst poll_loop.simps)
  apply (simp add: maxAttempts_def ascii_def)
  done

lemma recording_world_task: "tasks recording_world (ascii ''t1'') = Some recording_task"
  by (simp add: recording_world_def)

lemma t1_nonempty: "ascii ''t1'' \<noteq> []"
  by (simp add: ascii_def)

lemma url_set: "is_set (Some (ascii ''https://oss/t1.webm''))"
  by (simp add: is_set_def ascii_def)

lemma bad_audio_thrown:
  "process_audio_summary_try bad_audio (Some (ascii ''t1'')) (Some (ascii ''https://oss/t1.webm''))
     recording_world =
   Thrown (Error (AUDIO_TO_TEXT_FAILED @ TRANSCRIBE_FAILED @ ascii ''bad audio''))
     (saveTask recording_world (recording_task\<lparr>status := processing\<rparr>))"
  using t1_nonempty url_set
  by (simp add: process_audio_summary_try_def readTask_Some [OF recording_world_task]
      text_of_def bad_audio_client Let_def)
     (simp add: recording_task_def is_set_def)

text \<open>
  The claim C1 as stated fails in the live summarize path: a live task that is still
  recording is marked failed when its transcription job fails, and \<^verbatim>\<open>isRecording\<close> stays
  \<^verbatim>\<open>true\<close>.
\<close>

theorem recording_flag_kept_counterexample:
  "map_option status
     (tasks (snd (process_audio_summary bad_audio (Some (ascii ''t1''))
                    (Some (ascii ''https://oss/t1.webm'')) recording_world)) (ascii ''t1''))
     = Some failed
   \<and> map_option isRecording
       (tasks (snd (process_audio_summary bad_audio (Some (ascii ''t1''))
                      (Some (ascii ''https://oss/t1.webm'')) recording_world)) (ascii ''t1''))
     = Some (Some True)"
  by (simp add: process_audio_summary_def bad_audio_thrown mark_failed_def text_of_def
      readTask_def saveTask_def recording_task_def)

text \<open>
  The claim C4 as stated fails: the job fails with \<^verbatim>\<open>bad audio\<close>, a delete of the object
  would succeed, and the object is still in the bucket when the handler has answered.
\<close>

theorem remote_object_kept_counterexample:
  "fst (process_audio_summary bad_audio (Some (ascii ''t1''))
          (Some (ascii ''https://oss/t1.webm'')) recording_world)
     = Response 500 (ErrorBody (AUDIO_TO_TEXT_FAILED @ TRANSCRIBE_FAILED @ ascii ''bad audio''))
   \<and> delete_fails (surroundings bad_audio) (ascii ''temp_audio/t1.webm'') = None
   \<and> objects (snd (process_audio_summary bad_audio (Some (ascii ''t1''))
                     (Some (ascii ''https://oss/t1.webm'')) recording_world))
       (ascii ''temp_audio/t1.webm'') = Some [1, 2, 3]"
  by (simp add: process_audio_summary_def bad_audio_thrown mark_failed_def summary_objects
      readTask_def saveTask_def)
     (simp add: bad_audio_def configured_def unconfigured_def recording_world_def)

lemma silent_world_task: "tasks silent_world (ascii ''t1'') = Some recording_task"
  by (simp add: silent_world_def recording_world_def)

lemma page_world_task: "tasks page_world (ascii ''t2'') = Some page_task"
  by (simp add: page_world_def)

lemma padded_text_returns: "fst (audioToTextWithParaformer padded_text) = Inr (ascii ''hi'')"
  apply (simp add: audioToTextWithParaformer_def transcribe_def padded_text_def)
  apply (subst poll_loop.simps)
  apply (simp add: maxAttempts_def accumulate_def extract_item_def fallback_def finish_def
      trim_def is_space_def ascii_def)
  done

lemma page_text_paragraph: "page_text (ascii ''<p>Hello</p>'') = ascii ''Hello''"
  by code_simp

theorem failure_recorded_witness:
  "tasks (snd (process_webpage bad_audio (ascii ''t2'') page_world)) (ascii ''t2'') =
     Some (page_task\<lparr>status := failed,
             summary := Some (PROCESS_FAILED @ FETCH_PAGE_FAILED
                              @ ascii ''timeout of 10000ms exceeded'')\<rparr>)
   \<and> tasks (snd (process_webpage no_llm_config (ascii ''t2'') page_world)) (ascii ''t2'') =
       Some (page_task\<lparr>content := Some (ascii ''Hello''), status := failed,
               summary := Some (PROCESS_FAILED @ NEED_LLM_CONFIG)\<rparr>)
   \<and> tasks (snd (process_webpage llm_down (ascii ''t2'') page_world)) (ascii ''t2'') =
       Some (page_task\<lparr>content := Some (ascii ''Hello''), status := failed,
               summary := Some (PROCESS_FAILED @ LLM_CALL_FAILED @ ascii ''socket hang up'')\<rparr>)
   \<and> tasks (snd (stop_recording (ascii ''t1'') silent_world)) (ascii ''t1'') =
       Some (recording_task\<lparr>status := failed, isRecording := Some False,
               summary := Some (PROCESS_FAILED @ NO_AUDIO_FOUND)\<rparr>)
   \<and> tasks (snd (generate_audio_summary llm_down (ascii ''t1'') recording_world)) (ascii ''t1'') =
       Some (recording_task\<lparr>status := failed,
               summary := Some (SUMMARY_FAILED @ OSS_INCOMPLETE)\<rparr>)
   \<and> tasks (snd (process_audio_summary bad_audio (Some (ascii ''t1''))
                    (Some (ascii ''https://oss/t1.webm'')) recording_world)) (ascii ''t1'') =
       Some (recording_task\<lparr>status := failed,
               summary := Some (SUMMARY_FAILED @ AUDIO_TO_TEXT_FAILED @ TRANSCRIBE_FAILED
                                @ ascii ''bad audio'')\<rparr>)
   \<and> tasks (snd (process_audio_summary llm_down (Some (ascii ''t1''))
                    (Some (ascii ''https://oss/t1.webm'')) recording_world)) (ascii ''t1'') =
       Some (recording_task\<lparr>content := Some (ascii ''hi''), status := failed,
               summary := Some (SUMMARY_FAILED @ LLM_CALL_FAILED @ ascii ''socket hang up'')\<rparr>)
   \<and> fst (process_webpage llm_down (ascii ''t2'') page_world) =
       Response 500 (ErrorBody (LLM_CALL_FAILED @ ascii ''socket hang up''))"
proof -
  let ?cfg = "\<lparr>baseUrl = ascii ''http://llm'', model = ascii ''m'', apiKey = ascii ''k''\<rparr>"
  let ?url = "Some (ascii ''https://oss/t1.webm'')"
  let ?down = "Error (LLM_CALL_FAILED @ ascii ''socket hang up'')"
  have i1: "id' recording_task = ascii ''t1''" by (simp add: recording_task_def)
  have i2: "id' page_task = ascii ''t2''" by (simp add: page_task_def)
  have l1: "type' recording_task = live" by (simp add: recording_task_def)
  have l2: "type' page_task = webpage" by (simp add: page_task_def)
  have f1: "fetchWebPageContent bad_audio (url page_task) =
              Inl (Error (FETCH_PAGE_FAILED @ ascii ''timeout of 10000ms exceeded''))"
    by (simp add: fetchWebPageContent_def bad_audio_def)
  have f2: "fetchWebPageContent llm_down (url page_task) = Inr (ascii ''Hello'')"
    by (simp add: fetchWebPageContent_def llm_down_def page_text_paragraph)
  have f3: "fetchWebPageContent no_llm_config (url page_task) = Inr (ascii ''Hello'')"
    by (simp add: fetchWebPageContent_def llm_down_def no_llm_config_def page_text_paragraph)
  have c2: "stored_llm_config (transcription llm_down) = Some ?cfg"
    by (simp add: llm_down_def padded_text_def)
  have c3: "stored_llm_config (transcription no_llm_config) = None"
    by (simp add: no_llm_config_def)
  have g: "generateSummaryWithLLM llm_down c ?cfg = Inl ?down" for c
    by (simp add: generateSummaryWithLLM_def llm_down_def ascii_def)
  have s: "fst (stopLiveRecording (id' recording_task) (audio silent_world)) =
             Inl (Error NO_AUDIO_FOUND)"
    by (simp add: stopLiveRecording_def fs_readdir_def silent_world_def recording_world_def)
  have a: "map_of (audio recording_world) (id' recording_task @ ascii ''.webm'') = Some [1, 2, 3]"
    by (simp add: recording_world_def recording_task_def ascii_def)
  have u: "fst (uploadFileToOSS (surroundings llm_down) (id' recording_task @ ascii ''.webm'')
                  (ascii ''temp_audio/'' @ id' recording_task @ ascii ''.webm'') recording_world)
             = Inl (Error OSS_INCOMPLETE)"
    by (simp add: uploadFileToOSS_def llm_down_def recording_world_def create_unconfigured)
  have x: "fst (audioToTextWithParaformer (transcription llm_down)) = Inr (ascii ''hi'')"
    by (simp add: llm_down_def padded_text_returns)
  note p = failure_recorded [OF page_world_task i2]
  note q = failure_recorded [OF silent_world_task i1]
  note r = failure_recorded [OF recording_world_task i1]
  from p [of bad_audio "Error (FETCH_PAGE_FAILED @ ascii ''timeout of 10000ms exceeded'')",
      THEN conjunct1] l2 f1
  have 1: "tasks (snd (process_webpage bad_audio (ascii ''t2'') page_world)) (ascii ''t2'') =
     Some (page_task\<lparr>status := failed,
             summary := Some (PROCESS_FAILED @ FETCH_PAGE_FAILED
                              @ ascii ''timeout of 10000ms exceeded'')\<rparr>)"
    by simp
  from p [of no_llm_config _ "ascii ''Hello''", THEN conjunct2, THEN conjunct1] l2 f3 c3
  have 2: "tasks (snd (process_webpage no_llm_config (ascii ''t2'') page_world)) (ascii ''t2'') =
       Some (page_task\<lparr>content := Some (ascii ''Hello''), status := failed,
               summary := Some (PROCESS_FAILED @ NEED_LLM_CONFIG)\<rparr>)"
    by simp
  from p [of llm_down ?down "ascii ''Hello''" ?cfg, THEN conjunct2, THEN conjunct2,
      THEN conjunct1] l2 f2 c2 g
  have 3: "tasks (snd (process_webpage llm_down (ascii ''t2'') page_world)) (ascii ''t2'') =
       Some (page_task\<lparr>content := Some (ascii ''Hello''), status := failed,
               summary := Some (PROCESS_FAILED @ LLM_CALL_FAILED @ ascii ''socket hang up'')\<rparr>)"
    and 8: "fst (process_webpage llm_down (ascii ''t2'') page_world) =
       Response 500 (ErrorBody (LLM_CALL_FAILED @ ascii ''socket hang up''))"
    by simp_all
  from q [of _ "Error NO_AUDIO_FOUND", THEN conjunct2, THEN conjunct2, THEN conjunct2,
      THEN conjunct1] l1 s
  have 4: "tasks (snd (stop_recording (ascii ''t1'') silent_world)) (ascii ''t1'') =
       Some (recording_task\<lparr>status := failed, isRecording := Some False,
               summary := Some (PROCESS_FAILED @ NO_AUDIO_FOUND)\<rparr>)"
    by simp
  from r [of llm_down "Error OSS_INCOMPLETE" _ _ "[1, 2, 3]", THEN conjunct2, THEN conjunct2,
      THEN conjunct2, THEN conjunct2, THEN conjunct1] l1 a u
  have 5: "tasks (snd (generate_audio_summary llm_down (ascii ''t1'') recording_world)) (ascii ''t1'') =
       Some (recording_task\<lparr>status := failed,
               summary := Some (SUMMARY_FAILED @ OSS_INCOMPLETE)\<rparr>)"
    by simp
  from r [of bad_audio "Error (AUDIO_TO_TEXT_FAILED @ TRANSCRIBE_FAILED @ ascii ''bad audio'')"
      _ _ _ ?url, THEN conjunct2, THEN conjunct2, THEN conjunct2, THEN conjunct2, THEN conjunct2,
      THEN conjunct1] l1 t1_nonempty url_set bad_audio_client
  have 6: "tasks (snd (process_audio_summary bad_audio (Some (ascii ''t1'')) ?url recording_world))
             (ascii ''t1'') =
       Some (recording_task\<lparr>status := failed,
               summary := Some (SUMMARY_FAILED @ AUDIO_TO_TEXT_FAILED @ TRANSCRIBE_FAILED
                                @ ascii ''bad audio'')\<rparr>)"
    by simp
  from r [of llm_down ?down "ascii ''hi''" ?cfg _ ?url, THEN conjunct2, THEN conjunct2,
      THEN conjunct2, THEN conjunct2, THEN conjunct2, THEN conjunct2] l1 t1_nonempty url_set x c2 g
  have 7: "tasks (snd (process_audio_summary llm_down (Some (ascii ''t1'')) ?url recording_world))
             (ascii ''t1'') =
       Some (recording_task\<lparr>content := Some (ascii ''hi''), status := failed,
               summary := Some (SUMMARY_FAILED @ LLM_CALL_FAILED @ ascii ''socket hang up'')\<rparr>)"
    by simp
  from 1 2 3 4 5 6 7 8 show ?thesis by (intro conjI)
qed

theorem job_failed_witness:
  "poll (transcription fails_on_second) 2 =
     Inr \<lparr>task_status = JStr (ascii ''FAILED''), output_message = JStr (ascii ''bad audio''),
          results = None\<rparr>
   \<and> still_running (poll (transcription fails_on_second) 1)
   \<and> fst (audioToTextWithParaformer (transcription fails_on_second)) =
       Inl (Error (AUDIO_TO_TEXT_FAILED @ TRANSCRIBE_FAILED @ ascii ''bad audio''))
   \<and> fst (process_audio_summary fails_on_second (Some (ascii ''t1''))
            (Some (ascii ''https://oss/t1.webm'')) recording_world)
       = Response 500 (ErrorBody (AUDIO_TO_TEXT_FAILED @ TRANSCRIBE_FAILED @ ascii ''bad audio''))
   \<and> tasks (snd (process_audio_summary fails_on_second (Some (ascii ''t1''))
                   (Some (ascii ''https://oss/t1.webm'')) recording_world)) (ascii ''t1'')
       = Some (recording_task\<lparr>status := failed,
                 summary := Some (SUMMARY_FAILED @ AUDIO_TO_TEXT_FAILED @ TRANSCRIBE_FAILED
                                  @ ascii ''bad audio'')\<rparr>)
   \<and> objects (snd (process_audio_summary fails_on_second (Some (ascii ''t1''))
                     (Some (ascii ''https://oss/t1.webm'')) recording_world))
       = objects recording_world"
proof -
  let ?out = "\<lparr>task_status = JStr (ascii ''FAILED''), output_message = JStr (ascii ''bad audio''),
               results = None\<rparr>"
  let ?cfg = "\<lparr>baseUrl = ascii ''http://llm'', model = ascii ''m'', apiKey = ascii ''k''\<rparr>"
  have h1: "stored_llm_config (transcription fails_on_second) = Some ?cfg"
    by (simp add: fails_on_second_def bad_audio_def)
  have h2: "apiKey ?cfg \<noteq> []" by (simp add: ascii_def)
  have h3: "submit (transcription fails_on_second) = Inr (JStr (ascii ''job-1''))"
    by (simp add: fails_on_second_def bad_audio_def)
  have h4: "truthy (JStr (ascii ''job-1''))" by (simp add: ascii_def)
  have h5: "(1::nat) \<le> 2" and h6: "(2::nat) \<le> 30" by simp_all
  have r1: "still_running (poll (transcription fails_on_second) 1)"
    by (simp add: fails_on_second_def still_running_def ascii_def)
  have h7: "\<forall>n. 1 \<le> n \<and> n < 2 \<longrightarrow> still_running (poll (transcription fails_on_second) n)"
  proof (intro allI impI)
    fix n :: nat
    assume "1 \<le> n \<and> n < 2"
    then have "n = 1" by simp
    with r1 show "still_running (poll (transcription fails_on_second) n)" by simp
  qed
  have h8: "poll (transcription fails_on_second) 2 = Inr ?out"
    by (simp add: fails_on_second_def)
  have h9: "task_status ?out = JStr (ascii ''FAILED'')" by simp
  note r = job_failed [OF h1 h2 h3 h4 h5 h6 h7 h8 h9,
      where w = recording_world and tid = "ascii ''t1''" and t = recording_task
        and fileUrl = "Some (ascii ''https://oss/t1.webm'')" and taskId = "Some (ascii ''t1'')"
        and fileUrl' = "Some (ascii ''https://oss/t1.webm'')" and w' = recording_world]
  have l: "type' recording_task = live" and i: "id' recording_task = ascii ''t1''"
    by (simp_all add: recording_task_def)
  from r have a: "fst (audioToTextWithParaformer (transcription fails_on_second)) =
       Inl (Error (AUDIO_TO_TEXT_FAILED @ TRANSCRIBE_FAILED @ ascii ''bad audio''))"
    by simp
  from r [THEN conjunct2, THEN conjunct1] recording_world_task l t1_nonempty url_set
  have b: "fst (process_audio_summary fails_on_second (Some (ascii ''t1''))
            (Some (ascii ''https://oss/t1.webm'')) recording_world)
       = Response 500 (ErrorBody (AUDIO_TO_TEXT_FAILED @ TRANSCRIBE_FAILED @ ascii ''bad audio''))"
    by simp
  from r [THEN conjunct2, THEN conjunct2, THEN conjunct1] recording_world_task i l t1_nonempty
    url_set
  have d: "tasks (snd (process_audio_summary fails_on_second (Some (ascii ''t1''))
                   (Some (ascii ''https://oss/t1.webm'')) recording_world)) (ascii ''t1'')
       = Some (recording_task\<lparr>status := failed,
                 summary := Some (SUMMARY_FAILED @ AUDIO_TO_TEXT_FAILED @ TRANSCRIBE_FAILED
                                  @ ascii ''bad audio'')\<rparr>)"
    by simp
  note c = r [THEN conjunct2, THEN conjunct2, THEN conjunct2]
  from h8 r1 a b d c show ?thesis by (intro conjI)
qed

theorem precondition_leaves_task_witness:
  "tasks silent_world (ascii ''t1'') = Some recording_task
   \<and> type' recording_task = live
   \<and> map_of (audio silent_world) (id' recording_task @ ascii ''.webm'') = None
   \<and> generate_audio_summary bad_audio (ascii ''t1'') silent_world
       = (Response 400 (ErrorBody AUDIO_MISSING), silent_world)"
proof -
  have l: "type' recording_task = live" by (simp add: recording_task_def)
  have n: "map_of (audio silent_world) (id' recording_task @ ascii ''.webm'') = None"
    by (simp add: silent_world_def)
  from precondition_leaves_task [OF silent_world_task l n, of bad_audio] silent_world_task l n
  show ?thesis by (intro conjI)
qed

end
